theory Spec2Isabelle
  imports Main "HOL-Library.Sublist" "HOL-Library.Char_ord" "HOL-Library.List_Lexorder"
begin

section \<open>Go strings: the parts of package strings that schemator uses\<close>

text \<open>
  A Go string is a sequence of bytes, here a \<^typ>\<open>string\<close> (a list of 8-bit characters).
  The functions of package strings that look for white space decode UTF-8 and ask
  unicode.IsSpace. The white-space code points are U+0009..U+000D, U+0020, U+0085, U+00A0,
  U+1680, U+2000..U+200A, U+2028, U+2029, U+202F, U+205F and U+3000; \<open>spaceRunes\<close> lists
  their UTF-8 encodings. Every encoding starts with a byte that is no continuation byte and
  goes on with continuation bytes only, so a decoder that walks the string rune by rune
  meets a white-space rune exactly where one of these encodings starts.
\<close>

definition spaceRunes :: "string list" where
  "spaceRunes =
     [[CHR 0x09], [CHR 0x0A], [CHR 0x0B], [CHR 0x0C], [CHR 0x0D], [CHR 0x20],
      [CHR 0xC2, CHR 0x85], [CHR 0xC2, CHR 0xA0],
      [CHR 0xE1, CHR 0x9A, CHR 0x80],
      [CHR 0xE2, CHR 0x80, CHR 0x80], [CHR 0xE2, CHR 0x80, CHR 0x81],
      [CHR 0xE2, CHR 0x80, CHR 0x82], [CHR 0xE2, CHR 0x80, CHR 0x83],
      [CHR 0xE2, CHR 0x80, CHR 0x84], [CHR 0xE2, CHR 0x80, CHR 0x85],
      [CHR 0xE2, CHR 0x80, CHR 0x86], [CHR 0xE2, CHR 0x80, CHR 0x87],
      [CHR 0xE2, CHR 0x80, CHR 0x88], [CHR 0xE2, CHR 0x80, CHR 0x89],
      [CHR 0xE2, CHR 0x80, CHR 0x8A],
      [CHR 0xE2, CHR 0x80, CHR 0xA8], [CHR 0xE2, CHR 0x80, CHR 0xA9],
      [CHR 0xE2, CHR 0x80, CHR 0xAF],
      [CHR 0xE2, CHR 0x81, CHR 0x9F],
      [CHR 0xE3, CHR 0x80, CHR 0x80]]"

text \<open>A UTF-8 continuation byte: 0x80..0xBF.\<close>

definition isCont :: "char \<Rightarrow> bool" where
  "isCont c = (128 \<le> (of_char c :: nat) \<and> (of_char c :: nat) < 192)"

text \<open>The width in bytes of the white-space rune that starts the string; 0 if none does.\<close>

definition spaceWidth :: "string \<Rightarrow> nat" where
  "spaceWidth s = (case find (\<lambda>p. prefix p s) spaceRunes of None \<Rightarrow> 0 | Some p \<Rightarrow> length p)"

text \<open>The same for the rune that ends the string (strings.TrimRightFunc decodes backwards).\<close>

definition spaceWidthEnd :: "string \<Rightarrow> nat" where
  "spaceWidthEnd s = (case find (\<lambda>p. suffix p s) spaceRunes of None \<Rightarrow> 0 | Some p \<Rightarrow> length p)"

text \<open>
  strings.Fields: the loop of FieldsFunc over the runes of the string. \<open>cur\<close> is the field
  being read (empty when the loop is between fields, Go's \<open>start < 0\<close>), \<open>k\<close> counts the
  bytes of a white-space rune that are still to be stepped over.
\<close>

fun fieldsLoop :: "nat \<Rightarrow> string \<Rightarrow> string \<Rightarrow> string list" where
  "fieldsLoop k cur [] = (if cur = [] then [] else [cur])"
| "fieldsLoop (Suc k) cur (c # cs) = fieldsLoop k cur cs"
| "fieldsLoop 0 cur (c # cs) =
     (if 0 < spaceWidth (c # cs)
      then (if cur = [] then [] else [cur]) @ fieldsLoop (spaceWidth (c # cs) - 1) [] cs
      else fieldsLoop 0 (cur @ [c]) cs)"

definition Fields :: "string \<Rightarrow> string list" where
  "Fields s = fieldsLoop 0 [] s"

text \<open>strings.Join.\<close>

fun Join :: "string list \<Rightarrow> string \<Rightarrow> string" where
  "Join [] sep = []"
| "Join [x] sep = x"
| "Join (x # y # ys) sep = x @ sep @ Join (y # ys) sep"

text \<open>
  strings.TrimSpace trims the white-space runes at both ends: TrimLeftFunc decodes forwards,
  TrimRightFunc backwards. \<open>trimRightLoop\<close> walks the reversed string.
\<close>

fun trimLeftLoop :: "nat \<Rightarrow> string \<Rightarrow> string" where
  "trimLeftLoop k [] = []"
| "trimLeftLoop (Suc k) (c # cs) = trimLeftLoop k cs"
| "trimLeftLoop 0 (c # cs) =
     (if 0 < spaceWidth (c # cs) then trimLeftLoop (spaceWidth (c # cs) - 1) cs else c # cs)"

fun trimRightLoop :: "nat \<Rightarrow> string \<Rightarrow> string" where
  "trimRightLoop k [] = []"
| "trimRightLoop (Suc k) (c # cs) = trimRightLoop k cs"
| "trimRightLoop 0 (c # cs) =
     (if 0 < spaceWidthEnd (rev (c # cs))
      then trimRightLoop (spaceWidthEnd (rev (c # cs)) - 1) cs else c # cs)"

definition TrimSpace :: "string \<Rightarrow> string" where
  "TrimSpace s = rev (trimRightLoop 0 (rev (trimLeftLoop 0 s)))"

definition HasPrefix :: "string \<Rightarrow> string \<Rightarrow> bool" where
  "HasPrefix s p = prefix p s"

definition HasSuffix :: "string \<Rightarrow> string \<Rightarrow> bool" where
  "HasSuffix s p = suffix p s"

fun IndexByte :: "string \<Rightarrow> char \<Rightarrow> nat option" where
  "IndexByte [] b = None"
| "IndexByte (c # cs) b = (if c = b then Some 0 else map_option Suc (IndexByte cs b))"

text \<open>strings.Split for a separator of one byte: n separators give n + 1 parts.\<close>

fun Split :: "string \<Rightarrow> char \<Rightarrow> string list" where
  "Split [] sep = [[]]"
| "Split (c # cs) sep =
     (if c = sep then [] # Split cs sep
      else (case Split cs sep of [] \<Rightarrow> [[c]] | p # ps \<Rightarrow> (c # p) # ps))"

definition newline :: char where
  "newline = CHR 0x0A"

definition tab :: char where
  "tab = CHR 0x09"

text \<open>
  bufio.Scanner with the default split function ScanLines: the tokens are the lines without
  their newline and without one trailing carriage return; an empty rest after the last
  newline is no token. A line that does not fit the buffer of MaxScanTokenSize bytes stops
  the scan with ErrTooLong.
\<close>

definition rawLines :: "string \<Rightarrow> string list" where
  "rawLines contents =
     (let ls = Split contents newline in if last ls = [] then butlast ls else ls)"

definition dropCR :: "string \<Rightarrow> string" where
  "dropCR data = (if data \<noteq> [] \<and> last data = CHR 0x0D then butlast data else data)"

definition MaxScanTokenSize :: int where
  "MaxScanTokenSize = 64 * 1024"

section \<open>Errors, the environment and its trace\<close>

text \<open>
  The errors of the program. \<open>ErrNotExist\<close> is an error for which
  \<open>errors.Is(err, os.ErrNotExist)\<close> holds, \<open>SysError\<close> any other error that the operating
  system, a subprocess, the Go parser or a library reports; the others are the errors that
  schemator makes itself with fmt.Errorf.
\<close>

datatype error =
    ErrNotExist
  | SysError string
  | ErrTooLong
  | InvalidModuleDirective string
  | ModuleDirectiveNotFound
  | GoModNotFound string
  | NoGoSourceFiles string
  | GoListFailed string error string
  | GoListEmptyOutput string
  | GoListEmptyDirectory string
  | ResolveSourceDirectory string error
  | MissingModuleImportPathAt nat
  | MissingModuleImportPath
  | SourceDirectoryEmpty string

text \<open>
  reflect.Type. A type is known by its identity (a number), the table \<open>rtypes\<close> of the
  environment gives its name, package path and shape. Types can be recursive, so the
  table is a graph, not a tree.
\<close>

type_synonym tid = nat

datatype shape =
    Ptr tid
  | Slice tid
  | Array tid
  | Map tid tid
  | Struct "tid list"
  | Chan tid
  | Func
  | Interface
  | Basic

record rtype =
  Name :: string
  PkgPath :: string
  Shape :: shape

text \<open>A model value, as far as the program looks at it: nil, or a value with its dynamic type.\<close>

type_synonym model = "tid option"

type_synonym commentMap = "string \<rightharpoonup> string"

text \<open>The operations on the world outside that the program performs, in order.\<close>

datatype event =
    GoList string string
  | Chdir string
  | AddGoComments string string
  | Reflect model
  | MkdirAll string
  | Create string
  | Fprintln string string

type_synonym hist = "event list"

text \<open>
  The environment: the Go standard library's path functions, the file system, the go
  command, the Go parser and the jsonschema library. What an operation answers may depend
  on the operations performed before it, so each one that looks at the world takes the
  trace of these. Logging, the context (its cancellation shows as a failure of the go
  command) and the lock around the change of the working directory are not modelled.
\<close>

record sys =
  rtypes :: "tid \<Rightarrow> rtype"
  token_IsExported :: "string \<Rightarrow> bool"
  filepath_Abs :: "hist \<Rightarrow> string \<Rightarrow> error + string"
  filepath_Rel :: "string \<Rightarrow> string \<Rightarrow> error + string"
  filepath_Dir :: "string \<Rightarrow> string"
  filepath_Join :: "string \<Rightarrow> string \<Rightarrow> string"
  filepath_Clean :: "string \<Rightarrow> string"
  filepath_IsAbs :: "string \<Rightarrow> bool"
  filepath_ToSlash :: "string \<Rightarrow> string"
  path_Join :: "string \<Rightarrow> string \<Rightarrow> string"
  path_Base :: "string \<Rightarrow> string"
  os_ReadFile :: "hist \<Rightarrow> string \<Rightarrow> error + string"
  os_ReadDir :: "hist \<Rightarrow> string \<Rightarrow> error + (string \<times> bool) list"
  os_Stat :: "hist \<Rightarrow> string \<Rightarrow> error option"
  os_Getwd :: "hist \<Rightarrow> error + string"
  os_Chdir :: "hist \<Rightarrow> string \<Rightarrow> error option"
  os_MkdirAll :: "hist \<Rightarrow> string \<Rightarrow> error option"
  os_Create :: "hist \<Rightarrow> string \<Rightarrow> error option"
  fmt_Fprintln :: "hist \<Rightarrow> string \<Rightarrow> string \<Rightarrow> error option"
  parser_ParseFile :: "hist \<Rightarrow> string \<Rightarrow> error + string"
  go_list :: "hist \<Rightarrow> string \<Rightarrow> string \<Rightarrow> string \<times> error option"
  jsonschema_AddGoComments ::
    "hist \<Rightarrow> string \<Rightarrow> string \<Rightarrow> commentMap \<Rightarrow> commentMap \<times> error option"
  jsonschema_Reflect :: "hist \<Rightarrow> commentMap \<Rightarrow> model \<Rightarrow> error + string"

record ImportPath =
  ModuleImportPath :: string
  SourceDirectory :: string

record generator =
  filesThatMustExist :: "string list"
  importPaths :: "ImportPath list"

section \<open>Comment sanitising\<close>

definition sanitizeCommentText :: "string \<Rightarrow> string" where
  "sanitizeCommentText text = (if text = [] then text else Join (Fields text) '' '')"

text \<open>
  The loop over the map stores the sanitised text under every key whose text it changes:
  every value of the map is replaced by its sanitised text. A nil map is the empty map.
\<close>

definition sanitizeCommentMap :: "commentMap \<Rightarrow> commentMap" where
  "sanitizeCommentMap m =
     (\<lambda>k. case m k of None \<Rightarrow> None
          | Some v \<Rightarrow> (if sanitizeCommentText v \<noteq> v then Some (sanitizeCommentText v) else Some v))"

section \<open>Comment harvesting\<close>

text \<open>
  withWorkingDir: the working directory is read, changed, and changed back by a deferred
  call on every path after the read has succeeded (also when the change itself fails).
  The lock around it is not modelled; \<open>fn\<close> is the closure, \<open>r\<close> the state it works on.
\<close>

definition withWorkingDir ::
  "sys \<Rightarrow> string \<Rightarrow> ('a \<Rightarrow> hist \<Rightarrow> error option \<times> 'a \<times> hist) \<Rightarrow> 'a \<Rightarrow> hist
     \<Rightarrow> error option \<times> 'a \<times> hist" where
  "withWorkingDir S dir fn r h =
     (case os_Getwd S h of
        Inl e \<Rightarrow> (Some e, r, h)
      | Inr cwd \<Rightarrow>
          (case os_Chdir S h dir of
             Some e \<Rightarrow> (Some e, r, h @ [Chdir dir, Chdir cwd])
           | None \<Rightarrow>
               (case fn r (h @ [Chdir dir]) of
                  (res, r', h') \<Rightarrow> (res, r', h' @ [Chdir cwd]))))"

text \<open>
  The two places that call AddGoComments do the same after it: return its error, or
  sanitise the whole comment map of the reflector.
\<close>

definition scrape :: "sys \<Rightarrow> string \<Rightarrow> string \<Rightarrow> commentMap \<Rightarrow> hist
    \<Rightarrow> error option \<times> commentMap \<times> hist" where
  "scrape S base dir r h =
     (case jsonschema_AddGoComments S h base dir r of
        (r', Some e) \<Rightarrow> (Some e, r', h @ [AddGoComments base dir])
      | (r', None) \<Rightarrow> (None, sanitizeCommentMap r', h @ [AddGoComments base dir]))"

definition addGoCommentsForImportPath ::
  "sys \<Rightarrow> commentMap \<Rightarrow> ImportPath \<Rightarrow> hist \<Rightarrow> error option \<times> commentMap \<times> hist" where
  "addGoCommentsForImportPath S r ip h =
     (if ModuleImportPath ip = [] then (Some MissingModuleImportPath, r, h)
      else if SourceDirectory ip = []
      then (Some (SourceDirectoryEmpty (ModuleImportPath ip)), r, h)
      else
        let dir = SourceDirectory ip in
        if \<not> filepath_IsAbs S dir
        then scrape S (ModuleImportPath ip) (filepath_Clean S dir) r h
        else withWorkingDir S (filepath_Clean S dir)
               (scrape S (ModuleImportPath ip) ''.'') r h)"

section \<open>The external directory resolver\<close>

text \<open>
  lookupPackageDir runs \<open>go list\<close> on \<open>importPath\<close> in \<open>workDir\<close> (the current directory
  when \<open>workDir\<close> is empty), with a format that prints the directory of the package, a
  tab and whether the package is in the standard library, and reads its combined output.
\<close>

definition lookupPackageDir ::
  "sys \<Rightarrow> string \<Rightarrow> string \<Rightarrow> hist \<Rightarrow> (error + string \<times> bool) \<times> hist" where
  "lookupPackageDir S importPath workDir h =
     (let (out, err) = go_list S h importPath workDir;
          h' = h @ [GoList importPath workDir]
      in case err of
           Some e \<Rightarrow> (Inl (GoListFailed importPath e (TrimSpace out)), h')
         | None \<Rightarrow>
             let line0 = TrimSpace out;
                 line = (case IndexByte line0 newline of
                           Some idx \<Rightarrow> take idx line0 | None \<Rightarrow> line0)
             in if line = [] then (Inl (GoListEmptyOutput importPath), h')
                else
                  let parts = Split line tab;
                      dir = TrimSpace (parts ! 0);
                      isStd = (1 < length parts \<and> parts ! 1 = ''true'')
                  in (Inr (dir, isStd), h'))"

definition ensureSourceDirectory ::
  "sys \<Rightarrow> ImportPath \<Rightarrow> hist \<Rightarrow> (error + ImportPath) \<times> hist" where
  "ensureSourceDirectory S ip h =
     (if SourceDirectory ip \<noteq> [] then (Inr ip, h)
      else
        case lookupPackageDir S (ModuleImportPath ip) [] h of
          (Inl e, h') \<Rightarrow> (Inl (ResolveSourceDirectory (ModuleImportPath ip) e), h')
        | (Inr (dir, isStd), h') \<Rightarrow>
            if dir = [] then (Inl (GoListEmptyDirectory (ModuleImportPath ip)), h')
            else (Inr (ip\<lparr>SourceDirectory := dir\<rparr>), h'))"

section \<open>The module locator and the package name detector\<close>

text \<open>parseModuleDirective: the loop over the lines that the scanner gives.\<close>

fun parseLines :: "string list \<Rightarrow> error + string" where
  "parseLines [] = Inl ModuleDirectiveNotFound"
| "parseLines (raw # rest) =
     (if MaxScanTokenSize \<le> int (length raw) then Inl ErrTooLong
      else
        let line = TrimSpace (dropCR raw) in
        if HasPrefix line ''module ''
        then (let fields = Fields line in
              if length fields < 2 then Inl (InvalidModuleDirective line)
              else Inr (fields ! 1))
        else parseLines rest)"

definition parseModuleDirective :: "string \<Rightarrow> error + string" where
  "parseModuleDirective contents = parseLines (rawLines contents)"

text \<open>
  findModulePath: the loop ends when go.mod is read, when reading fails for another reason
  than that the file does not exist, or when filepath.Dir gives the directory itself.
  Whether it ends depends on filepath.Dir and the file system, so the loop has fuel:
  \<open>None\<close> is a run that has not ended after \<open>fuel\<close> rounds.
\<close>

fun findModuleLoop ::
  "nat \<Rightarrow> sys \<Rightarrow> hist \<Rightarrow> string \<Rightarrow> string \<Rightarrow> (error + string \<times> string) option" where
  "findModuleLoop 0 S h startDir dir = None"
| "findModuleLoop (Suc fuel) S h startDir dir =
     (case os_ReadFile S h (filepath_Join S dir ''go.mod'') of
        Inr contents \<Rightarrow>
          (case parseModuleDirective contents of
             Inl e \<Rightarrow> Some (Inl e)
           | Inr modulePath \<Rightarrow> Some (Inr (dir, modulePath)))
      | Inl err \<Rightarrow>
          if err \<noteq> ErrNotExist then Some (Inl err)
          else
            let parent = filepath_Dir S dir in
            if parent = dir then Some (Inl (GoModNotFound startDir))
            else findModuleLoop fuel S h startDir parent)"

definition findModulePath ::
  "nat \<Rightarrow> sys \<Rightarrow> hist \<Rightarrow> string \<Rightarrow> (error + string \<times> string) option" where
  "findModulePath fuel S h startDir = findModuleLoop fuel S h startDir startDir"

fun firstSourceFile :: "sys \<Rightarrow> hist \<Rightarrow> string \<Rightarrow> (string \<times> bool) list \<Rightarrow> error + string" where
  "firstSourceFile S h dir [] = Inl (NoGoSourceFiles dir)"
| "firstSourceFile S h dir ((name, isDir) # entries) =
     (if isDir then firstSourceFile S h dir entries
      else if \<not> HasSuffix name ''.go'' \<or> HasSuffix name ''_test.go''
      then firstSourceFile S h dir entries
      else parser_ParseFile S h (filepath_Join S dir name))"

definition detectPackageName :: "sys \<Rightarrow> hist \<Rightarrow> string \<Rightarrow> error + string" where
  "detectPackageName S h dir =
     (case os_ReadDir S h dir of
        Inl e \<Rightarrow> Inl e
      | Inr entries \<Rightarrow> firstSourceFile S h dir entries)"

section \<open>The import path inferrer\<close>

text \<open>The import path of the directory without the name of its package.\<close>

definition baseImportPath :: "sys \<Rightarrow> string \<Rightarrow> string \<Rightarrow> string" where
  "baseImportPath S modulePath relPath =
     (if relPath \<noteq> ''.'' then path_Join S modulePath (filepath_ToSlash S relPath)
      else modulePath)"

text \<open>The import path that is tried first: with the package name where the code appends it.\<close>

definition computedImportPath :: "sys \<Rightarrow> string \<Rightarrow> string \<Rightarrow> string \<Rightarrow> string" where
  "computedImportPath S modulePath relPath pkgName =
     (let importPath = baseImportPath S modulePath relPath in
      if pkgName \<noteq> [] \<and> pkgName \<noteq> ''main''
      then (if path_Base S importPath \<noteq> pkgName then path_Join S importPath pkgName
            else importPath)
      else importPath)"

definition inferLocalImportPath ::
  "nat \<Rightarrow> sys \<Rightarrow> string \<Rightarrow> hist \<Rightarrow> ((error + ImportPath) \<times> hist) option" where
  "inferLocalImportPath fuel S sourceDir0 h =
     (let sourceDir = (if sourceDir0 = [] then ''./'' else sourceDir0) in
      case filepath_Abs S h sourceDir of
        Inl e \<Rightarrow> Some (Inl e, h)
      | Inr absSourceDir \<Rightarrow>
      (case findModulePath fuel S h absSourceDir of
        None \<Rightarrow> None
      | Some (Inl e) \<Rightarrow> Some (Inl e, h)
      | Some (Inr (moduleDir, modulePath)) \<Rightarrow>
      (case detectPackageName S h absSourceDir of
        Inl e \<Rightarrow> Some (Inl e, h)
      | Inr pkgName \<Rightarrow>
      (case filepath_Rel S moduleDir absSourceDir of
        Inl e \<Rightarrow> Some (Inl e, h)
      | Inr relPath \<Rightarrow>
        let importPath = computedImportPath S modulePath relPath pkgName in
        (case lookupPackageDir S importPath moduleDir h of
           (Inr (dir, isStd), h1) \<Rightarrow>
             Some (Inr \<lparr>ModuleImportPath = importPath,
                        SourceDirectory = (if dir = [] then absSourceDir else dir)\<rparr>, h1)
         | (Inl e1, h1) \<Rightarrow>
             (case lookupPackageDir S (baseImportPath S modulePath relPath) moduleDir h1 of
                (Inr (altDir, isStd), h2) \<Rightarrow>
                  Some (Inr \<lparr>ModuleImportPath = baseImportPath S modulePath relPath,
                             SourceDirectory =
                               (if altDir = [] then absSourceDir else altDir)\<rparr>, h2)
              | (Inl e2, h2) \<Rightarrow>
                  Some (Inr \<lparr>ModuleImportPath = importPath,
                             SourceDirectory = absSourceDir\<rparr>, h2)))))))"

section \<open>Names and packages of the types of the models\<close>

text \<open>
  The loop \<open>for t.Kind() == reflect.Ptr { t = t.Elem() }\<close>. Go has pointer types that
  point to themselves (\<open>type Loop *Loop\<close>, as in the tests of package reflect), on which
  the loop does not end, so it has fuel: \<open>None\<close> is a run that has not ended after
  \<open>fuel\<close> tests of the loop condition.
\<close>

fun unwrapPtr :: "nat \<Rightarrow> (tid \<Rightarrow> rtype) \<Rightarrow> tid \<Rightarrow> tid option" where
  "unwrapPtr 0 E t = None"
| "unwrapPtr (Suc fuel) E t =
     (case Shape (E t) of Ptr e \<Rightarrow> unwrapPtr fuel E e | _ \<Rightarrow> Some t)"

definition exportedName :: "sys \<Rightarrow> rtype \<Rightarrow> string" where
  "exportedName S t =
     (if Name t = [] then []
      else if \<not> token_IsExported S (Name t) then []
      else Name t)"

definition elemSliceName :: "nat \<Rightarrow> sys \<Rightarrow> tid \<Rightarrow> string option" where
  "elemSliceName fuel S e =
     (case unwrapPtr fuel (rtypes S) e of
        None \<Rightarrow> None
      | Some elem \<Rightarrow>
          if exportedName S (rtypes S elem) \<noteq> []
          then Some (exportedName S (rtypes S elem) @ ''Slice'')
          else Some [])"

definition toString :: "nat \<Rightarrow> sys \<Rightarrow> model \<Rightarrow> string option" where
  "toString fuel S x =
     (case x of
        None \<Rightarrow> Some []
      | Some t0 \<Rightarrow>
          (case unwrapPtr fuel (rtypes S) t0 of
             None \<Rightarrow> None
           | Some t \<Rightarrow>
               if exportedName S (rtypes S t) \<noteq> [] then Some (exportedName S (rtypes S t))
               else (case Shape (rtypes S t) of
                       Slice e \<Rightarrow> elemSliceName fuel S e
                     | Array e \<Rightarrow> elemSliceName fuel S e
                     | _ \<Rightarrow> Some [])))"

text \<open>
  visitTypeForPackages works on two Go maps used as sets: the package paths found and the
  types visited. The fuel bounds the pointer loop and the depth of the recursion. The
  tests \<open>t == nil\<close> of the code never hold for the type of a value or of a part of one.
\<close>

fun visitTypeForPackages ::
    "nat \<Rightarrow> sys \<Rightarrow> tid \<Rightarrow> string set \<times> tid set \<Rightarrow> (string set \<times> tid set) option"
  and visitFields ::
    "nat \<Rightarrow> sys \<Rightarrow> tid list \<Rightarrow> string set \<times> tid set \<Rightarrow> (string set \<times> tid set) option"
  where
  "visitTypeForPackages 0 S t0 st = None"
| "visitTypeForPackages (Suc fuel) S t0 st =
     (case unwrapPtr (Suc fuel) (rtypes S) t0 of
        None \<Rightarrow> None
      | Some t \<Rightarrow>
          if t \<in> snd st then Some st
          else
            let visited = insert t (snd st);
                packages = (if PkgPath (rtypes S t) \<noteq> []
                            then insert (PkgPath (rtypes S t)) (fst st) else fst st)
            in case Shape (rtypes S t) of
                 Struct fs \<Rightarrow> visitFields fuel S fs (packages, visited)
               | Slice e \<Rightarrow> visitTypeForPackages fuel S e (packages, visited)
               | Array e \<Rightarrow> visitTypeForPackages fuel S e (packages, visited)
               | Map k e \<Rightarrow>
                   (case visitTypeForPackages fuel S k (packages, visited) of
                      None \<Rightarrow> None
                    | Some st' \<Rightarrow> visitTypeForPackages fuel S e st')
               | Ptr e \<Rightarrow> visitTypeForPackages fuel S e (packages, visited)
               | _ \<Rightarrow> Some (packages, visited))"
| "visitFields fuel S [] st = Some st"
| "visitFields fuel S (f # fs) st =
     (case visitTypeForPackages fuel S f st of
        None \<Rightarrow> None
      | Some st' \<Rightarrow> visitFields fuel S fs st')"

fun visitModels ::
  "nat \<Rightarrow> sys \<Rightarrow> model list \<Rightarrow> string set \<times> tid set \<Rightarrow> (string set \<times> tid set) option" where
  "visitModels fuel S [] st = Some st"
| "visitModels fuel S (m # ms) st =
     (case m of
        None \<Rightarrow> visitModels fuel S ms st
      | Some t \<Rightarrow>
          (case visitTypeForPackages fuel S t st of
             None \<Rightarrow> None
           | Some st' \<Rightarrow> visitModels fuel S ms st'))"

text \<open>The keys of the package map are put in a slice in the map's order and sorted.\<close>

definition collectDependentPackages :: "nat \<Rightarrow> sys \<Rightarrow> model list \<Rightarrow> string list option" where
  "collectDependentPackages fuel S models =
     map_option (\<lambda>st. sorted_list_of_set (fst st)) (visitModels fuel S models ({}, {}))"

section \<open>The generator\<close>

text \<open>The index of the import paths given to the generator: the map \<open>existing\<close>.\<close>

fun indexImportPaths :: "nat \<Rightarrow> ImportPath list \<Rightarrow> (string \<rightharpoonup> nat) \<Rightarrow> (string \<rightharpoonup> nat)" where
  "indexImportPaths i [] existing = existing"
| "indexImportPaths i (ip # ips) existing =
     indexImportPaths (Suc i) ips
       (if ModuleImportPath ip \<noteq> [] then existing(ModuleImportPath ip \<mapsto> i) else existing)"

text \<open>The loop that appends the packages of the model's types that are not yet listed.\<close>

fun addInferred ::
  "string list \<Rightarrow> ImportPath list \<times> (string \<rightharpoonup> nat) \<Rightarrow> ImportPath list \<times> (string \<rightharpoonup> nat)" where
  "addInferred [] st = st"
| "addInferred (pkg # pkgs) (ips, existing) =
     (if pkg = [] then addInferred pkgs (ips, existing)
      else if existing pkg \<noteq> None then addInferred pkgs (ips, existing)
      else addInferred pkgs
             (ips @ [\<lparr>ModuleImportPath = pkg, SourceDirectory = []\<rparr>],
              existing(pkg \<mapsto> length (ips @ [\<lparr>ModuleImportPath = pkg, SourceDirectory = []\<rparr>]) - 1)))"

text \<open>
  The loop that resolves the source directory of every import path. It ranges over the
  list as it is when the loop starts (\<open>todo\<close>), stores each resolved entry in the
  generator's list (\<open>gips\<close>) and appends it to \<open>resolved\<close>.
\<close>

fun resolveEach ::
  "sys \<Rightarrow> nat \<Rightarrow> ImportPath list \<Rightarrow> ImportPath list \<Rightarrow> ImportPath list \<Rightarrow> hist
     \<Rightarrow> (error + ImportPath list) \<times> ImportPath list \<times> hist" where
  "resolveEach S i [] gips resolved h = (Inr resolved, gips, h)"
| "resolveEach S i (ip # todo) gips resolved h =
     (if ModuleImportPath ip = [] then (Inl (MissingModuleImportPathAt i), gips, h)
      else
        case ensureSourceDirectory S ip h of
          (Inl e, h') \<Rightarrow> (Inl e, gips, h')
        | (Inr resolvedIP, h') \<Rightarrow>
            resolveEach S (Suc i) todo (gips[i := resolvedIP]) (resolved @ [resolvedIP]) h')"

definition resolveImportPaths ::
  "nat \<Rightarrow> sys \<Rightarrow> generator \<Rightarrow> model list \<Rightarrow> hist
     \<Rightarrow> ((error + ImportPath list) \<times> generator \<times> hist) option" where
  "resolveImportPaths fuel S g models h =
     (let existing = indexImportPaths 0 (importPaths g) Map.empty in
      case (if importPaths g = []
            then (case inferLocalImportPath fuel S ''./'' h of
                    None \<Rightarrow> None
                  | Some (Inl e, h') \<Rightarrow> Some (Inl e, h')
                  | Some (Inr ip, h') \<Rightarrow>
                      Some (Inr (importPaths g @ [ip],
                                 existing(ModuleImportPath ip \<mapsto> length (importPaths g @ [ip]) - 1)),
                            h'))
            else Some (Inr (importPaths g, existing), h)) of
        None \<Rightarrow> None
      | Some (Inl e, h') \<Rightarrow> Some (Inl e, g, h')
      | Some (Inr (ips, existing'), h') \<Rightarrow>
          (case collectDependentPackages fuel S models of
             None \<Rightarrow> None
           | Some inferredPkgs \<Rightarrow>
               let ips' = fst (addInferred inferredPkgs (ips, existing')) in
               (case resolveEach S 0 ips' ips' [] h' of
                  (res, gips, h'') \<Rightarrow> Some (res, g\<lparr>importPaths := gips\<rparr>, h''))))"

text \<open>The loop over the files that must exist: the first error of os.Stat.\<close>

fun statAll :: "sys \<Rightarrow> hist \<Rightarrow> string list \<Rightarrow> error option" where
  "statAll S h [] = None"
| "statAll S h (p # ps) =
     (case os_Stat S h p of Some e \<Rightarrow> Some e | None \<Rightarrow> statAll S h ps)"

text \<open>The loop that harvests the comments of every import path into the reflector.\<close>

fun harvestAll ::
  "sys \<Rightarrow> ImportPath list \<Rightarrow> commentMap \<Rightarrow> hist \<Rightarrow> error option \<times> commentMap \<times> hist" where
  "harvestAll S [] r h = (None, r, h)"
| "harvestAll S (ip # ips) r h =
     (case addGoCommentsForImportPath S r ip h of
        (Some e, r', h') \<Rightarrow> (Some e, r', h')
      | (None, r', h') \<Rightarrow> harvestAll S ips r' h')"

text \<open>
  Generate. \<open>jsonschema_Reflect\<close> stands for the reflection of the model and the
  marshalling of the schema; its error is that of json.MarshalIndent.
\<close>

definition Generate ::
  "nat \<Rightarrow> sys \<Rightarrow> generator \<Rightarrow> model \<Rightarrow> hist \<Rightarrow> ((error + string) \<times> generator \<times> hist) option" where
  "Generate fuel S g model h =
     (case resolveImportPaths fuel S g [model] h of
        None \<Rightarrow> None
      | Some (Inl e, g', h') \<Rightarrow> Some (Inl e, g', h')
      | Some (Inr ips, g', h') \<Rightarrow>
          (case statAll S h' (filesThatMustExist g') of
             Some e \<Rightarrow> Some (Inl e, g', h')
           | None \<Rightarrow>
               (case harvestAll S ips Map.empty h' of
                  (Some e, r, h'') \<Rightarrow> Some (Inl e, g', h'')
                | (None, r, h'') \<Rightarrow>
                    Some (jsonschema_Reflect S h'' r model, g', h'' @ [Reflect model]))))"

definition WriteSchema ::
  "nat \<Rightarrow> sys \<Rightarrow> generator \<Rightarrow> model \<Rightarrow> string \<Rightarrow> hist \<Rightarrow> (error option \<times> generator \<times> hist) option" where
  "WriteSchema fuel S g model filenamePath h =
     (case Generate fuel S g model h of
        None \<Rightarrow> None
      | Some (Inl e, g', h') \<Rightarrow> Some (Some e, g', h')
      | Some (Inr out, g', h') \<Rightarrow>
          let fpath = filepath_Dir S filenamePath;
              h1 = h' @ [MkdirAll fpath] in
          (case os_MkdirAll S h' fpath of
             Some e \<Rightarrow> Some (Some e, g', h1)
           | None \<Rightarrow>
               let h2 = h1 @ [Create filenamePath] in
               (case os_Create S h1 filenamePath of
                  Some e \<Rightarrow> Some (Some e, g', h2)
                | None \<Rightarrow>
                    Some (fmt_Fprintln S h2 filenamePath out, g',
                          h2 @ [Fprintln filenamePath out]))))"

fun writeEach ::
  "nat \<Rightarrow> sys \<Rightarrow> generator \<Rightarrow> string \<Rightarrow> model list \<Rightarrow> hist
     \<Rightarrow> (error option \<times> generator \<times> hist) option" where
  "writeEach fuel S g outputDir [] h = Some (None, g, h)"
| "writeEach fuel S g outputDir (model # models) h =
     (case toString fuel S model of
        None \<Rightarrow> None
      | Some filename \<Rightarrow>
          if filename = [] then writeEach fuel S g outputDir models h
          else
            (case WriteSchema fuel S g model
                    (filepath_Join S outputDir (filename @ ''.schema.json'')) h of
               None \<Rightarrow> None
             | Some (Some e, g', h') \<Rightarrow> Some (Some e, g', h')
             | Some (None, g', h') \<Rightarrow> writeEach fuel S g' outputDir models h'))"

definition WriteSchemas ::
  "nat \<Rightarrow> sys \<Rightarrow> generator \<Rightarrow> string \<Rightarrow> model list \<Rightarrow> hist
     \<Rightarrow> (error option \<times> generator \<times> hist) option" where
  "WriteSchemas fuel S g outputDir models h =
     (if models = [] then Some (None, g, h) else writeEach fuel S g outputDir models h)"

section \<open>Vocabulary of the properties\<close>

text \<open>
  \<open>okr r\<close>: the string \<open>r\<close> does not start with a continuation byte. \<open>nosp f\<close>: no
  white-space rune starts anywhere in \<open>f\<close>, whatever of this kind follows \<open>f\<close>.
  \<open>curInv cur s\<close>: no white-space rune starts in \<open>cur\<close> when \<open>s\<close> follows it.
\<close>

definition okr :: "string \<Rightarrow> bool" where
  "okr r = (r = [] \<or> \<not> isCont (hd r))"

definition nosp :: "string \<Rightarrow> bool" where
  "nosp f = (\<forall>g r. g \<noteq> [] \<longrightarrow> suffix g f \<longrightarrow> okr r \<longrightarrow> spaceWidth (g @ r) = 0)"

definition curInv :: "string \<Rightarrow> string \<Rightarrow> bool" where
  "curInv cur s = (\<forall>g. g \<noteq> [] \<longrightarrow> suffix g cur \<longrightarrow> spaceWidth (g @ s) = 0)"

text \<open>
  \<open>collapsed v\<close>: the white space of \<open>v\<close> is collapsed to single spaces. No white-space rune
  starts \<open>v\<close>; wherever one starts in \<open>v\<close> it is the space U+0020, something follows it, and
  what follows is no white-space rune.
\<close>

fun singleSpaced :: "string \<Rightarrow> bool" where
  "singleSpaced [] = True"
| "singleSpaced (c # cs) =
     ((spaceWidth (c # cs) = 0 \<or> (c = CHR '' '' \<and> cs \<noteq> [] \<and> spaceWidth cs = 0)) \<and> singleSpaced cs)"

definition collapsed :: "string \<Rightarrow> bool" where
  "collapsed v = (spaceWidth v = 0 \<and> singleSpaced v)"




section \<open>A test environment\<close>

text \<open>
  An environment after the repository's tests, for evaluating the model: a module
  \<open>example.com/project\<close> in \<open>/tmp/root\<close> with the package \<open>foo\<close> in \<open>foo\<close>, a main program
  in \<open>cmd/tool\<close> and the package \<open>widget\<close> in \<open>pkg/v2\<close>, a directory \<open>/tmp/nomod\<close> outside
  every module, the types of the tests (Subject, wrapper, nested, the types of time and
  uuid they use, abridged) and the type \<open>Loop\<close> of the tests of package reflect. All its paths are absolute and clean, and the
  path functions are written for such paths only.
\<close>

definition noType :: rtype where
  "noType = \<lparr>Name = [], PkgPath = [], Shape = Basic\<rparr>"

definition testTypes :: "rtype list" where
  "testTypes =
    [\<lparr>Name = ''Subject'', PkgPath = ''pkt.systems/schemator/example'', Shape = Struct [1, 2, 3, 4]\<rparr>,
     \<lparr>Name = ''int'', PkgPath = [], Shape = Basic\<rparr>,
     \<lparr>Name = ''string'', PkgPath = [], Shape = Basic\<rparr>,
     \<lparr>Name = [], PkgPath = [], Shape = Slice 2\<rparr>,
     \<lparr>Name = ''Time'', PkgPath = ''time'', Shape = Struct [5, 6, 7]\<rparr>,
     \<lparr>Name = ''uint64'', PkgPath = [], Shape = Basic\<rparr>,
     \<lparr>Name = ''int64'', PkgPath = [], Shape = Basic\<rparr>,
     \<lparr>Name = [], PkgPath = [], Shape = Ptr 8\<rparr>,
     \<lparr>Name = ''Location'', PkgPath = ''time'', Shape = Struct [2, 6, 7]\<rparr>,
     \<lparr>Name = [], PkgPath = [], Shape = Ptr 0\<rparr>,
     \<lparr>Name = [], PkgPath = [], Shape = Slice 9\<rparr>,
     \<lparr>Name = ''wrapper'', PkgPath = ''pkt.systems/schemator'', Shape = Struct [12]\<rparr>,
     \<lparr>Name = [], PkgPath = [], Shape = Slice 0\<rparr>,
     \<lparr>Name = ''nested'', PkgPath = ''pkt.systems/schemator'', Shape = Struct [14, 15, 17]\<rparr>,
     \<lparr>Name = [], PkgPath = [], Shape = Ptr 4\<rparr>,
     \<lparr>Name = [], PkgPath = [], Shape = Slice 16\<rparr>,
     \<lparr>Name = ''UUID'', PkgPath = ''github.com/google/uuid'', Shape = Array 19\<rparr>,
     \<lparr>Name = [], PkgPath = [], Shape = Map 2 18\<rparr>,
     \<lparr>Name = [], PkgPath = [], Shape = Ptr 16\<rparr>,
     \<lparr>Name = ''uint8'', PkgPath = [], Shape = Basic\<rparr>,
     \<lparr>Name = ''Loop'', PkgPath = ''reflect_test'', Shape = Ptr 20\<rparr>]"

definition testSys :: sys where
  "testSys =
    \<lparr>rtypes = (\<lambda>t. if t < length testTypes then testTypes ! t else noType),
     token_IsExported = (\<lambda>n. n \<noteq> [] \<and> CHR ''A'' \<le> hd n \<and> hd n \<le> CHR ''Z''),
     filepath_Abs = (\<lambda>h p. Inr (if p = ''./'' then ''/tmp/root/foo'' else p)),
     filepath_Rel = (\<lambda>b t. if b = t then Inr ''.''
                            else if prefix (b @ ''/'') t then Inr (drop (length b + 1) t)
                            else Inl (SysError ''Rel'')),
     filepath_Dir = (\<lambda>p. let d = rev (tl (dropWhile (\<lambda>c. c \<noteq> CHR ''/'') (rev p)))
                           in if d = [] then ''/'' else d),
     filepath_Join = (\<lambda>a b. if a = ''/'' then a @ b else a @ ''/'' @ b),
     filepath_Clean = (\<lambda>p. p),
     filepath_IsAbs = (\<lambda>p. prefix ''/'' p),
     filepath_ToSlash = (\<lambda>p. p),
     path_Join = (\<lambda>a b. a @ ''/'' @ b),
     path_Base = (\<lambda>p. rev (takeWhile (\<lambda>c. c \<noteq> CHR ''/'') (rev p))),
     os_ReadFile = (\<lambda>h p. if p = ''/tmp/root/go.mod''
                            then Inr (''module example.com/project'' @ [newline, newline])
                            else Inl ErrNotExist),
     os_ReadDir = (\<lambda>h d. if d = ''/tmp/root/foo'' \<or> d = ''/tmp/nomod''
                           then Inr [(''foo_test.go'', False), (''foo.go'', False)]
                           else if d = ''/tmp/root/cmd/tool'' then Inr [(''main.go'', False)]
                           else if d = ''/tmp/root/pkg/v2''
                             then Inr [(''testdata'', True), (''widget.go'', False)]
                           else Inl ErrNotExist),
     os_Stat = (\<lambda>h p. if p = ''does-not-exist'' then Some ErrNotExist else None),
     os_Getwd = (\<lambda>h. Inr ''/tmp/root/foo''),
     os_Chdir = (\<lambda>h d. None),
     os_MkdirAll = (\<lambda>h d. None),
     os_Create = (\<lambda>h p. if p = ''/ro/Subject.schema.json'' then Some (SysError ''read-only file system'') else None),
     fmt_Fprintln = (\<lambda>h p out. None),
     parser_ParseFile = (\<lambda>h p. if p = ''/tmp/root/cmd/tool/main.go'' then Inr ''main''
                                 else if p = ''/tmp/root/pkg/v2/widget.go'' then Inr ''widget''
                                 else Inr ''foo''),
     go_list = (\<lambda>h ip wd. if ip = ''time''
                              then (''/usr/local/go/src/time'' @ [tab] @ ''true'' @ [newline], None)
                            else if ip = ''example.com/project/foo''
                              then (''/tmp/root/foo'' @ [tab] @ ''false'' @ [newline], None)
                            else if ip = ''example.com/project/pkg/v2''
                              then (''/tmp/root/pkg/v2'' @ [tab] @ ''false'' @ [newline], None)
                            else if ip = ''pkt.systems/schemator/example''
                              then (''/tmp/root/foo/example'' @ [tab] @ ''false'' @ [newline], None)
                            else (''no required module provides package'' @ [newline],
                                  Some (SysError ''exit status 1''))),
     jsonschema_AddGoComments =
       (\<lambda>h base dir r.
          (r(base @ ''.DemoType.Info'' \<mapsto>
               ''Info summary line.'' @ [newline] @ ''Wrapped onto a new line.''), None)),
     jsonschema_Reflect = (\<lambda>h r m. Inr ''{}'')\<rparr>"


text \<open>
  The first line of a go.mod file that begins with the module keyword, as the code reads
  the file: the first line from the scanner that, without the white space around it,
  begins with \<open>module\<close> and a space.
\<close>

definition firstModuleLine :: "string \<Rightarrow> string option" where
  "firstModuleLine contents =
     find (\<lambda>line. HasPrefix line ''module '')
       (map (\<lambda>raw. TrimSpace (dropCR raw)) (rawLines contents))"

text \<open>The same environment with a go command that always fails.\<close>

definition offlineSys :: sys where
  "offlineSys =
     testSys\<lparr>go_list := (\<lambda>h ip wd. (''go: command failed'' @ [newline],
                                     Some (SysError ''exit status 1'')))\<rparr>"

text \<open>
  \<open>derefs E n t = Some u\<close>: the type \<open>t\<close> is the type \<open>u\<close> under exactly \<open>n\<close> pointers, and
  \<open>u\<close> is no pointer type. \<open>namedExported S t\<close>: the type has a name and the name is
  exported.
\<close>

fun derefs :: "(tid \<Rightarrow> rtype) \<Rightarrow> nat \<Rightarrow> tid \<Rightarrow> tid option" where
  "derefs E 0 t = (case Shape (E t) of Ptr e \<Rightarrow> None | _ \<Rightarrow> Some t)"
| "derefs E (Suc n) t = (case Shape (E t) of Ptr e \<Rightarrow> derefs E n e | _ \<Rightarrow> None)"

definition namedExported :: "sys \<Rightarrow> tid \<Rightarrow> bool" where
  "namedExported S t = (Name (rtypes S t) \<noteq> [] \<and> token_IsExported S (Name (rtypes S t)))"



text \<open>
  What the test environment gives for a generator without import paths and the model
  \<open>Subject\<close>: the resolved import paths, and the traces of resolving and harvesting them.
\<close>

definition testResolved :: "ImportPath list" where
  "testResolved =
     [\<lparr>ModuleImportPath = ''example.com/project/foo'', SourceDirectory = ''/tmp/root/foo''\<rparr>,
      \<lparr>ModuleImportPath = ''pkt.systems/schemator/example'',
         SourceDirectory = ''/tmp/root/foo/example''\<rparr>,
      \<lparr>ModuleImportPath = ''time'', SourceDirectory = ''/usr/local/go/src/time''\<rparr>]"

definition testResolveTrace :: hist where
  "testResolveTrace =
     [GoList ''example.com/project/foo'' ''/tmp/root'',
      GoList ''pkt.systems/schemator/example'' [],
      GoList ''time'' []]"

definition testHarvestTrace :: hist where
  "testHarvestTrace =
     [Chdir ''/tmp/root/foo'', AddGoComments ''example.com/project/foo'' ''.'',
      Chdir ''/tmp/root/foo'',
      Chdir ''/tmp/root/foo/example'', AddGoComments ''pkt.systems/schemator/example'' ''.'',
      Chdir ''/tmp/root/foo'',
      Chdir ''/usr/local/go/src/time'', AddGoComments ''time'' ''.'',
      Chdir ''/tmp/root/foo'']"

text \<open>
  The comment map as AddGoComments leaves it when addGoCommentsForImportPath calls it:
  for a relative source directory with the cleaned directory, for an absolute one with
  \<open>.\<close> after the change of the working directory.
\<close>

definition harvestedComments :: "sys \<Rightarrow> commentMap \<Rightarrow> ImportPath \<Rightarrow> hist \<Rightarrow> commentMap" where
  "harvestedComments S r ip h =
     fst (jsonschema_AddGoComments S
            (if filepath_IsAbs S (SourceDirectory ip)
             then h @ [Chdir (filepath_Clean S (SourceDirectory ip))] else h)
            (ModuleImportPath ip)
            (if filepath_IsAbs S (SourceDirectory ip) then ''.''
             else filepath_Clean S (SourceDirectory ip)) r)"


text \<open>The test environment with source files whose package clause does not parse.\<close>

definition brokenSys :: sys where
  "brokenSys =
     testSys\<lparr>parser_ParseFile := (\<lambda>h p. Inl (SysError ''expected package, found EOF''))\<rparr>"

text \<open>
  The directory entry that detectPackageName reads the package clause of: a file, named
  \<open>*.go\<close> and not \<open>*_test.go\<close>.
\<close>

fun isPackageSource :: "string \<times> bool \<Rightarrow> bool" where
  "isPackageSource (name, isDir) =
     (\<not> isDir \<and> HasSuffix name ''.go'' \<and> \<not> HasSuffix name ''_test.go'')"

text \<open>\<open>allSpace s\<close>: the string consists of white-space runes only.\<close>

definition allSpace :: "string \<Rightarrow> bool" where
  "allSpace s = (\<exists>ps. set ps \<subseteq> set spaceRunes \<and> s = concat ps)"





section \<open>White space and fields\<close>

lemma spaceRunes_shape:
  "p \<in> set spaceRunes \<Longrightarrow> p \<noteq> [] \<and> \<not> isCont (hd p) \<and> (\<forall>c \<in> set (tl p). isCont c)"
  by (auto simp: spaceRunes_def isCont_def)

lemma spaceWidth_pos_iff: "0 < spaceWidth s \<longleftrightarrow> (\<exists>p \<in> set spaceRunes. prefix p s)"
proof
  assume "0 < spaceWidth s"
  then obtain p where "find (\<lambda>p. prefix p s) spaceRunes = Some p"
    by (auto simp: spaceWidth_def split: option.splits)
  then show "\<exists>p \<in> set spaceRunes. prefix p s"
    by (auto simp: find_Some_iff)
next
  assume "\<exists>p \<in> set spaceRunes. prefix p s"
  then obtain q where q: "find (\<lambda>p. prefix p s) spaceRunes = Some q"
    by (cases "find (\<lambda>p. prefix p s) spaceRunes") (auto simp: find_None_iff)
  then have "q \<in> set spaceRunes" by (auto simp: find_Some_iff)
  then have "q \<noteq> []" using spaceRunes_shape by blast
  with q show "0 < spaceWidth s" by (simp add: spaceWidth_def)
qed

lemma spaceWidth_space: "spaceWidth (CHR '' '' # r) = 1"
  by (simp add: spaceWidth_def spaceRunes_def)

lemma spaceWidth_transfer:
  assumes "x \<noteq> []" "okr r'" "spaceWidth (x @ r) = 0"
  shows "spaceWidth (x @ r') = 0"
proof (rule ccontr)
  assume "spaceWidth (x @ r') \<noteq> 0"
  then obtain p where p: "p \<in> set spaceRunes" "prefix p (x @ r')"
    using spaceWidth_pos_iff by auto
  from p(2) have "prefix p x \<or> (\<exists>us. p = x @ us \<and> prefix us r')"
    by (simp add: prefix_append)
  then consider "prefix p x" | q where "p = x @ q" "q \<noteq> []" "prefix q r'"
  proof (elim disjE exE conjE)
    fix us assume us: "p = x @ us" "prefix us r'"
    assume a: "prefix p x \<Longrightarrow> thesis" and b: "\<And>q. p = x @ q \<Longrightarrow> q \<noteq> [] \<Longrightarrow> prefix q r' \<Longrightarrow> thesis"
    show thesis
    proof (cases "us = []")
      case True
      then show ?thesis using a us(1) by simp
    next
      case False
      then show ?thesis using b us by blast
    qed
  qed
  then show False
  proof cases
    case 1
    then have "prefix p (x @ r)" by (simp add: prefix_prefix)
    with p(1) have "0 < spaceWidth (x @ r)" using spaceWidth_pos_iff by blast
    with assms(3) show False by simp
  next
    case 2
    then have "hd q \<in> set (tl p)" using assms(1) by (cases x; cases q) auto
    then have "isCont (hd q)" using spaceRunes_shape[OF p(1)] by blast
    moreover have "r' \<noteq> [] \<and> hd r' = hd q" using 2 by (cases q; cases r') auto
    ultimately show False using assms(2) by (simp add: okr_def)
  qed
qed

lemma okr_space_start: "0 < spaceWidth s \<Longrightarrow> okr s"
proof -
  assume "0 < spaceWidth s"
  then obtain p where p: "p \<in> set spaceRunes" "prefix p s"
    using spaceWidth_pos_iff by auto
  then have "p \<noteq> []" "\<not> isCont (hd p)" using spaceRunes_shape by blast+
  with p(2) show "okr s" by (cases p; cases s) (auto simp: okr_def)
qed

lemma curInv_nosp: "curInv cur s \<Longrightarrow> okr s \<Longrightarrow> nosp cur"
  unfolding curInv_def nosp_def using spaceWidth_transfer by blast

lemma fieldsLoop_nosp:
  "nosp f \<Longrightarrow> okr r \<Longrightarrow> fieldsLoop 0 cur (f @ r) = fieldsLoop 0 (cur @ f) r"
proof (induction f arbitrary: cur)
  case Nil
  then show ?case by simp
next
  case (Cons c cs)
  have tl: "nosp cs" using Cons.prems(1) by (auto simp: nosp_def suffix_Cons)
  have "spaceWidth ((c # cs) @ r) = 0"
    using Cons.prems by (auto simp: nosp_def)
  then show ?case using Cons.IH[OF tl Cons.prems(2), of "cur @ [c]"] by simp
qed

lemma fieldsLoop_space:
  "fieldsLoop 0 cur (CHR '' '' # r) = (if cur = [] then [] else [cur]) @ fieldsLoop 0 [] r"
  by (simp add: spaceWidth_space)

lemma Fields_Join:
  "\<forall>f \<in> set fs. f \<noteq> [] \<and> nosp f \<Longrightarrow> Fields (Join fs '' '') = fs"
proof (induction fs "'' ''" rule: Join.induct)
  case 1
  then show ?case by (simp add: Fields_def)
next
  case (2 x)
  then have "nosp x" "x \<noteq> []" by auto
  then show ?case using fieldsLoop_nosp[of x "[]" "[]"] by (simp add: Fields_def okr_def)
next
  case (3 x y ys)
  then have x: "nosp x" "x \<noteq> []" by auto
  have ok: "okr (CHR '' '' # Join (y # ys) '' '')" by (simp add: okr_def isCont_def)
  have "Fields (Join (y # ys) '' '') = y # ys" using 3 by simp
  then show ?case using fieldsLoop_nosp[OF x(1) ok, of "[]"] x(2)
    by (simp add: Fields_def spaceWidth_space)
qed

lemma fieldsLoop_fields:
  "(0 < k \<longrightarrow> cur = []) \<Longrightarrow> (k = 0 \<longrightarrow> curInv cur s) \<Longrightarrow>
   \<forall>f \<in> set (fieldsLoop k cur s). f \<noteq> [] \<and> nosp f"
proof (induction k cur s rule: fieldsLoop.induct)
  case (1 k cur)
  then show ?case
    by (cases k) (auto simp: okr_def dest: curInv_nosp)
next
  case (2 k cur c cs)
  then show ?case by (simp add: curInv_def)
next
  case (3 cur c cs)
  show ?case
  proof (cases "0 < spaceWidth (c # cs)")
    case True
    have "nosp cur" using 3 True okr_space_start curInv_nosp by blast
    moreover have "\<forall>f\<in>set (fieldsLoop (spaceWidth (c # cs) - 1) [] cs). f \<noteq> [] \<and> nosp f"
      using 3(1)[OF True] by (simp add: curInv_def)
    ultimately show ?thesis using True by auto
  next
    case False
    have "curInv (cur @ [c]) cs"
      unfolding curInv_def
    proof (intro allI impI)
      fix g assume g: "g \<noteq> []" "suffix g (cur @ [c])"
      then obtain g' where g': "g = g' @ [c]" "suffix g' cur"
        by (cases g rule: rev_cases) (auto simp: suffix_def)
      show "spaceWidth (g @ cs) = 0"
      proof (cases "g' = []")
        case True
        then show ?thesis using False g' by simp
      next
        case False
        then show ?thesis using 3(4) g' by (simp add: curInv_def)
      qed
    qed
    then show ?thesis using 3(2) False by simp
  qed
qed

lemma Fields_fields: "\<forall>f \<in> set (Fields s). f \<noteq> [] \<and> nosp f"
  unfolding Fields_def by (rule fieldsLoop_fields) (simp_all add: curInv_def)

section \<open>Sanitising\<close>

lemma sanitize_fixed: "sanitizeCommentText (sanitizeCommentText s) = sanitizeCommentText s"
  using Fields_Join[OF Fields_fields, of s] by (simp add: sanitizeCommentText_def)

text \<open>
  C10. Sanitising a comment text is idempotent: for every string, sanitising the sanitised
  text gives the sanitised text again.
\<close>

theorem sanitizeCommentText_idempotent:
  "sanitizeCommentText (sanitizeCommentText s) = sanitizeCommentText s"
  by (rule sanitize_fixed)

section \<open>Harvested comments\<close>

lemma spaceWidth_Nil: "spaceWidth [] = 0"
  by (simp add: spaceWidth_def spaceRunes_def)

lemma nosp_Cons: "nosp (c # cs) \<Longrightarrow> nosp cs"
  by (auto simp: nosp_def suffix_Cons)

lemma nosp_head: "nosp f \<Longrightarrow> f \<noteq> [] \<Longrightarrow> okr r \<Longrightarrow> spaceWidth (f @ r) = 0"
  by (auto simp: nosp_def)

lemma singleSpaced_nosp: "nosp f \<Longrightarrow> okr r \<Longrightarrow> singleSpaced (f @ r) = singleSpaced r"
proof (induction f)
  case Nil
  then show ?case by simp
next
  case (Cons c cs)
  have "spaceWidth ((c # cs) @ r) = 0" using Cons.prems nosp_head by blast
  then show ?case using Cons.IH[OF nosp_Cons[OF Cons.prems(1)] Cons.prems(2)] by simp
qed

lemma Join_Cons_nonempty: "x \<noteq> [] \<Longrightarrow> Join (x # xs) sep \<noteq> []"
  by (cases xs) auto

lemma collapsed_Join:
  "\<forall>f \<in> set fs. f \<noteq> [] \<and> nosp f \<Longrightarrow> collapsed (Join fs '' '')"
proof (induction fs "'' ''" rule: Join.induct)
  case 1
  then show ?case by (simp add: collapsed_def spaceWidth_Nil)
next
  case (2 x)
  then have x: "nosp x" "x \<noteq> []" by auto
  have "okr []" by (simp add: okr_def)
  then show ?case using singleSpaced_nosp[OF x(1), of "[]"] nosp_head[OF x, of "[]"]
    by (simp add: collapsed_def)
next
  case (3 x y ys)
  then have x: "nosp x" "x \<noteq> []" and y: "y \<noteq> []" by auto
  have ok: "okr (CHR '' '' # Join (y # ys) '' '')" by (simp add: okr_def isCont_def)
  have ih: "collapsed (Join (y # ys) '' '')" using 3 by simp
  have ne: "Join (y # ys) '' '' \<noteq> []" using y by (rule Join_Cons_nonempty)
  show ?case
    using singleSpaced_nosp[OF x(1) ok] nosp_head[OF x ok] ih ne
    by (simp add: collapsed_def)
qed

lemma sanitize_collapsed: "collapsed (sanitizeCommentText w)"
  using collapsed_Join[OF Fields_fields, of w]
  by (simp add: sanitizeCommentText_def collapsed_def spaceWidth_Nil)

lemma sanitizeCommentMap_Some:
  "sanitizeCommentMap m k = Some v \<Longrightarrow> \<exists>w. m k = Some w \<and> v = sanitizeCommentText w"
  by (auto simp: sanitizeCommentMap_def split: option.splits if_splits)

lemma scrape_ok:
  "scrape S base dir r h = (None, r', h') \<Longrightarrow>
     \<exists>m. jsonschema_AddGoComments S h base dir r = (m, None) \<and> r' = sanitizeCommentMap m"
  by (auto simp: scrape_def split: prod.splits option.splits)

lemma withWorkingDir_ok:
  assumes "withWorkingDir S dir fn r h = (None, r', h')"
  shows "\<exists>h1. fn r (h @ [Chdir dir]) = (None, r', h1)"
proof -
  from assms obtain cwd where cwd: "os_Getwd S h = Inr cwd"
    by (cases "os_Getwd S h") (auto simp: withWorkingDir_def)
  from assms cwd have cd: "os_Chdir S h dir = None"
    by (cases "os_Chdir S h dir") (auto simp: withWorkingDir_def)
  obtain res r1 h1 where f: "fn r (h @ [Chdir dir]) = (res, r1, h1)"
    by (cases "fn r (h @ [Chdir dir])") auto
  with assms cwd cd have "res = None" "r1 = r'"
    by (auto simp: withWorkingDir_def)
  with f show ?thesis by blast
qed

lemma addGoComments_ok:
  assumes "addGoCommentsForImportPath S r ip h = (None, r', h')"
  shows "jsonschema_AddGoComments S
           (if filepath_IsAbs S (SourceDirectory ip)
            then h @ [Chdir (filepath_Clean S (SourceDirectory ip))] else h)
           (ModuleImportPath ip)
           (if filepath_IsAbs S (SourceDirectory ip) then ''.''
            else filepath_Clean S (SourceDirectory ip)) r = (harvestedComments S r ip h, None)
       \<and> r' = sanitizeCommentMap (harvestedComments S r ip h)"
proof -
  from assms have ne: "ModuleImportPath ip \<noteq> []" "SourceDirectory ip \<noteq> []"
    by (auto simp: addGoCommentsForImportPath_def split: if_splits)
  show ?thesis
  proof (cases "filepath_IsAbs S (SourceDirectory ip)")
    case False
    with assms ne have
      "scrape S (ModuleImportPath ip) (filepath_Clean S (SourceDirectory ip)) r h = (None, r', h')"
      by (simp add: addGoCommentsForImportPath_def)
    then show ?thesis using scrape_ok False by (fastforce simp: harvestedComments_def)
  next
    case True
    with assms ne have
      "withWorkingDir S (filepath_Clean S (SourceDirectory ip))
         (scrape S (ModuleImportPath ip) ''.'') r h = (None, r', h')"
      by (simp add: addGoCommentsForImportPath_def)
    from withWorkingDir_ok[OF this]
    obtain h1 where "scrape S (ModuleImportPath ip) ''.'' r
        (h @ [Chdir (filepath_Clean S (SourceDirectory ip))]) = (None, r', h1)"
      by blast
    then show ?thesis using scrape_ok True by (fastforce simp: harvestedComments_def)
  qed
qed

lemma sanitize_words: "sanitizeCommentText w = Join (Fields w) '' ''"
  by (simp add: sanitizeCommentText_def Fields_def)

lemma Fields_sanitize: "Fields (Join (Fields w) '' '') = Fields w"
  by (rule Fields_Join[OF Fields_fields])

lemma sanitizeCommentMap_eq:
  "sanitizeCommentMap m k = map_option (\<lambda>w. Join (Fields w) '' '') (m k)"
  by (simp add: sanitizeCommentMap_def sanitize_words split: option.splits)

text \<open>
  C6. When the harvesting of the comments of an import path succeeds, the reflector's
  comment map holds, under every key, the words of the comment that AddGoComments left
  there, joined by single spaces: the text has its white space collapsed to single spaces
  (sanitising it again changes nothing) and has the same words as the harvested comment.
\<close>

theorem harvested_comments_collapsed:
  assumes "addGoCommentsForImportPath S r ip h = (None, r', h')"
  shows "(\<forall>k. r' k = map_option (\<lambda>w. Join (Fields w) '' '') (harvestedComments S r ip h k))
       \<and> (\<forall>k v. r' k = Some v \<longrightarrow>
             collapsed v \<and> sanitizeCommentText v = v
             \<and> (\<exists>w. harvestedComments S r ip h k = Some w \<and> Fields v = Fields w))"
proof -
  have r': "r' = sanitizeCommentMap (harvestedComments S r ip h)"
    using addGoComments_ok[OF assms] by simp
  have A: "\<forall>k. r' k = map_option (\<lambda>w. Join (Fields w) '' '') (harvestedComments S r ip h k)"
    by (simp add: r' sanitizeCommentMap_eq)
  have B: "\<forall>k v. r' k = Some v \<longrightarrow>
             collapsed v \<and> sanitizeCommentText v = v
             \<and> (\<exists>w. harvestedComments S r ip h k = Some w \<and> Fields v = Fields w)"
  proof (intro allI impI)
    fix k v assume "r' k = Some v"
    then obtain w where w: "harvestedComments S r ip h k = Some w" "v = Join (Fields w) '' ''"
      by (auto simp: r' sanitizeCommentMap_eq)
    have "v = sanitizeCommentText w" using w(2) by (simp add: sanitize_words)
    then have "collapsed v" "sanitizeCommentText v = v"
      using sanitize_collapsed sanitize_fixed by simp_all
    moreover have "Fields v = Fields w" using w(2) Fields_sanitize by simp
    ultimately show "collapsed v \<and> sanitizeCommentText v = v
             \<and> (\<exists>w. harvestedComments S r ip h k = Some w \<and> Fields v = Fields w)"
      using w(1) by simp
  qed
  show ?thesis using A B by (rule conjI)
qed

text \<open>
  The test of the repository: the comment of the field \<open>Info\<close>, written on two lines,
  harvested from an absolute directory.
\<close>

theorem harvested_comments_collapsed_witness:
  "fst (addGoCommentsForImportPath testSys Map.empty
          \<lparr>ModuleImportPath = ''example.com/temp/foo'', SourceDirectory = ''/tmp/foo''\<rparr> []) = None
   \<and> harvestedComments testSys Map.empty
          \<lparr>ModuleImportPath = ''example.com/temp/foo'', SourceDirectory = ''/tmp/foo''\<rparr> []
          ''example.com/temp/foo.DemoType.Info''
       = Some (''Info summary line.'' @ [newline] @ ''Wrapped onto a new line.'')
   \<and> fst (snd (addGoCommentsForImportPath testSys Map.empty
          \<lparr>ModuleImportPath = ''example.com/temp/foo'', SourceDirectory = ''/tmp/foo''\<rparr> []))
         ''example.com/temp/foo.DemoType.Info''
       = Some ''Info summary line. Wrapped onto a new line.''
   \<and> collapsed ''Info summary line. Wrapped onto a new line.''
   \<and> Fields ''Info summary line. Wrapped onto a new line.''
       = Fields (''Info summary line.'' @ [newline] @ ''Wrapped onto a new line.'')"
proof -
  let ?ip = "\<lparr>ModuleImportPath = ''example.com/temp/foo'', SourceDirectory = ''/tmp/foo''\<rparr>"
  let ?run = "addGoCommentsForImportPath testSys Map.empty ?ip []"
  let ?k = "''example.com/temp/foo.DemoType.Info''"
  let ?w = "''Info summary line.'' @ [newline] @ ''Wrapped onto a new line.''"
  let ?v = "''Info summary line. Wrapped onto a new line.''"
  have a: "fst ?run = None" by code_simp
  have hv: "harvestedComments testSys Map.empty ?ip [] ?k = Some ?w" by code_simp
  have j: "Join (Fields ?w) '' '' = ?v" by code_simp
  have c: "?run = (None, fst (snd ?run), snd (snd ?run))"
    using a by (metis prod.collapse)
  note t = harvested_comments_collapsed[OF c]
  from t hv j have b: "fst (snd ?run) ?k = Some ?v" by simp
  from t b hv have "collapsed ?v \<and> Fields ?v = Fields ?w" by fastforce
  then show ?thesis using a hv b by blast
qed

section \<open>The external directory resolver\<close>


















section \<open>The module locator\<close>


lemma parseLines_found:
  "parseLines ls = Inr mp \<Longrightarrow>
     \<exists>line. find (\<lambda>line. HasPrefix line ''module '') (map (\<lambda>raw. TrimSpace (dropCR raw)) ls) = Some line
       \<and> 2 \<le> length (Fields line) \<and> mp = Fields line ! 1"
  by (induction ls) (auto simp: Let_def split: if_splits)

lemma findModuleLoop_found:
  "findModuleLoop fuel S h start d = Some (Inr (dir, mp)) \<Longrightarrow>
     \<exists>k contents line.
        dir = (filepath_Dir S ^^ k) d
      \<and> (\<forall>j<k. os_ReadFile S h (filepath_Join S ((filepath_Dir S ^^ j) d) ''go.mod'') = Inl ErrNotExist)
      \<and> os_ReadFile S h (filepath_Join S dir ''go.mod'') = Inr contents
      \<and> firstModuleLine contents = Some line
      \<and> mp = Fields line ! 1"
proof (induction fuel arbitrary: d)
  case 0
  then show ?case by simp
next
  case (Suc fuel)
  show ?case
  proof (cases "os_ReadFile S h (filepath_Join S d ''go.mod'')")
    case (Inr contents)
    with Suc.prems have p: "parseModuleDirective contents = Inr mp" "dir = d"
      by (auto split: sum.splits)
    then obtain line where "firstModuleLine contents = Some line" "mp = Fields line ! 1"
      using parseLines_found by (fastforce simp: parseModuleDirective_def firstModuleLine_def)
    then show ?thesis using Inr p(2)
      by (intro exI[of _ 0] exI[of _ contents] exI[of _ line]) simp
  next
    case (Inl err)
    with Suc.prems have e: "err = ErrNotExist" "filepath_Dir S d \<noteq> d"
      and rec: "findModuleLoop fuel S h start (filepath_Dir S d) = Some (Inr (dir, mp))"
      by (auto simp: Let_def split: if_splits)
    from Suc.IH[OF rec] obtain k contents line where k:
      "dir = (filepath_Dir S ^^ k) (filepath_Dir S d)"
      "\<forall>j<k. os_ReadFile S h (filepath_Join S ((filepath_Dir S ^^ j) (filepath_Dir S d)) ''go.mod'') = Inl ErrNotExist"
      "os_ReadFile S h (filepath_Join S dir ''go.mod'') = Inr contents"
      "firstModuleLine contents = Some line" "mp = Fields line ! 1"
      by blast
    have "\<forall>j<Suc k. os_ReadFile S h (filepath_Join S ((filepath_Dir S ^^ j) d) ''go.mod'') = Inl ErrNotExist"
    proof (intro allI impI)
      fix j assume j: "j < Suc k"
      show "os_ReadFile S h (filepath_Join S ((filepath_Dir S ^^ j) d) ''go.mod'') = Inl ErrNotExist"
      proof (cases j)
        case 0
        then show ?thesis using Inl e by simp
      next
        case (Suc j')
        then show ?thesis using k(2) j by (simp add: funpow_swap1)
      qed
    qed
    then show ?thesis using k
      by (intro exI[of _ "Suc k"] exI[of _ contents] exI[of _ line]) (simp add: funpow_swap1)
  qed
qed

text \<open>
  A line that, trimmed, begins with \<open>module\<close> and a space has a second field: the trimmed
  line does not end in white space. So the error for a module line without a name is never
  returned, and parseModuleDirective is decided by the first such line.
\<close>

lemma fieldsLoop_skip: "fieldsLoop k cur s = fieldsLoop 0 cur (drop k s)"
  by (induction k cur s rule: fieldsLoop.induct) simp_all

lemma spaceWidth_prefix_rune:
  assumes "0 < spaceWidth s"
  shows "\<exists>p \<in> set spaceRunes. length p = spaceWidth s \<and> prefix p s"
proof -
  from assms obtain p where f: "find (\<lambda>p. prefix p s) spaceRunes = Some p"
    by (auto simp: spaceWidth_def split: option.splits)
  then have "p \<in> set spaceRunes" "prefix p s" by (auto simp: find_Some_iff)
  moreover have "length p = spaceWidth s" using f by (simp add: spaceWidth_def)
  ultimately show ?thesis by blast
qed

lemma fieldsLoop_cur: "cur \<noteq> [] \<Longrightarrow> fieldsLoop k cur t \<noteq> []"
  by (induction k cur t rule: fieldsLoop.induct) auto

lemma allSpace_Nil: "allSpace []"
  unfolding allSpace_def by (rule exI[of _ "[]"]) simp

lemma allSpace_rune: "p \<in> set spaceRunes \<Longrightarrow> allSpace s \<Longrightarrow> allSpace (p @ s)"
  unfolding allSpace_def
proof -
  assume p: "p \<in> set spaceRunes" and "\<exists>ps. set ps \<subseteq> set spaceRunes \<and> s = concat ps"
  then obtain ps where "set ps \<subseteq> set spaceRunes" "s = concat ps" by blast
  then have "set (p # ps) \<subseteq> set spaceRunes \<and> p @ s = concat (p # ps)" using p by simp
  then show "\<exists>ps. set ps \<subseteq> set spaceRunes \<and> p @ s = concat ps" by blast
qed

lemma fieldsLoop_Nil_allSpace:
  "fieldsLoop 0 [] s = [] \<Longrightarrow> allSpace s"
proof (induction "length s" arbitrary: s rule: less_induct)
  case less
  show ?case
  proof (cases s)
    case Nil
    then show ?thesis by (simp add: allSpace_Nil)
  next
    case (Cons c cs)
    show ?thesis
    proof (cases "0 < spaceWidth (c # cs)")
      case False
      then have "fieldsLoop 0 [] s = fieldsLoop 0 [c] cs" using Cons by simp
      moreover have "fieldsLoop 0 [c] cs \<noteq> []" by (rule fieldsLoop_cur) simp
      ultimately have False using less.prems by simp
      then show ?thesis ..
    next
      case True
      then obtain p where p: "p \<in> set spaceRunes" "length p = spaceWidth (c # cs)" "prefix p (c # cs)"
        using spaceWidth_prefix_rune by blast
      then obtain rest where rest: "c # cs = p @ rest" by (auto simp: prefix_def)
      have pne: "p \<noteq> []" using p(2) True by auto
      obtain a q where q: "p = a # q" using pne by (cases p) auto
      have cq: "a = c" "cs = q @ rest" using rest q by simp_all
      have dr: "drop (spaceWidth (c # cs) - 1) cs = rest"
        using p(2) q cq(2) by simp
      have "fieldsLoop 0 [] s = fieldsLoop (spaceWidth (c # cs) - 1) [] cs"
        using True Cons by simp
      also have "\<dots> = fieldsLoop 0 [] (drop (spaceWidth (c # cs) - 1) cs)"
        by (rule fieldsLoop_skip)
      finally have "fieldsLoop 0 [] rest = []" using less.prems dr by simp
      moreover have "length rest < length s" using Cons cq(2) by simp
      ultimately have "allSpace rest" using less.hyps by blast
      then show ?thesis using allSpace_rune[OF p(1)] rest Cons by simp
    qed
  qed
qed

lemma spaceWidthEnd_pos_iff: "0 < spaceWidthEnd s \<longleftrightarrow> (\<exists>p \<in> set spaceRunes. suffix p s)"
proof
  assume "0 < spaceWidthEnd s"
  then obtain p where "find (\<lambda>p. suffix p s) spaceRunes = Some p"
    by (auto simp: spaceWidthEnd_def split: option.splits)
  then show "\<exists>p \<in> set spaceRunes. suffix p s"
    by (auto simp: find_Some_iff)
next
  assume "\<exists>p \<in> set spaceRunes. suffix p s"
  then obtain q where q: "find (\<lambda>p. suffix p s) spaceRunes = Some q"
    by (cases "find (\<lambda>p. suffix p s) spaceRunes") (auto simp: find_None_iff)
  then have "q \<in> set spaceRunes" by (auto simp: find_Some_iff)
  then have "q \<noteq> []" using spaceRunes_shape by blast
  with q show "0 < spaceWidthEnd s" by (simp add: spaceWidthEnd_def)
qed

lemma allSpace_suffix:
  assumes "allSpace s" "s \<noteq> []"
  shows "\<exists>p \<in> set spaceRunes. suffix p s"
proof -
  from assms(1) obtain ps where ps: "set ps \<subseteq> set spaceRunes" "s = concat ps"
    by (auto simp: allSpace_def)
  have ne: "ps \<noteq> []" using ps(2) assms(2) by auto
  then have "last ps \<in> set spaceRunes" using ps(1) by auto
  moreover have "concat ps = concat (butlast ps) @ last ps"
  proof -
    have "concat ps = concat (butlast ps @ [last ps])" using ne by simp
    then show ?thesis by (simp del: append_butlast_last_id)
  qed
  then have "suffix (last ps) s" unfolding ps(2) by (simp add: suffix_def)
  ultimately show ?thesis by blast
qed

lemma spaceWidthEnd_trimRightLoop: "spaceWidthEnd (rev (trimRightLoop k r)) = 0"
proof (induction k r rule: trimRightLoop.induct)
  case (1 k)
  have "\<not> 0 < spaceWidthEnd []"
    using spaceRunes_shape by (auto simp: spaceWidthEnd_pos_iff)
  then show ?case by simp
next
  case (2 k c cs)
  then show ?case by simp
next
  case (3 c cs)
  then show ?case by (cases "0 < spaceWidthEnd (rev (c # cs))") simp_all
qed

lemma spaceWidthEnd_TrimSpace: "spaceWidthEnd (TrimSpace s) = 0"
  by (simp add: TrimSpace_def spaceWidthEnd_trimRightLoop)

lemma space_rune: "[CHR '' ''] \<in> set spaceRunes"
  by (simp add: spaceRunes_def)

lemma Fields_module:
  "Fields (''module '' @ rest) = ''module'' # fieldsLoop 0 [] rest"
  by (simp add: Fields_def spaceWidth_def spaceRunes_def)

lemma module_line_fields:
  assumes "HasPrefix (TrimSpace x) ''module ''"
  shows "2 \<le> length (Fields (TrimSpace x))"
proof -
  from assms obtain rest where rest: "TrimSpace x = ''module '' @ rest"
    by (auto simp: HasPrefix_def prefix_def)
  have "fieldsLoop 0 [] rest \<noteq> []"
  proof
    assume "fieldsLoop 0 [] rest = []"
    then have "allSpace rest" by (rule fieldsLoop_Nil_allSpace)
    then have "allSpace ([CHR '' ''] @ rest)" using allSpace_rune[OF space_rune] by blast
    then obtain p where p: "p \<in> set spaceRunes" "suffix p ([CHR '' ''] @ rest)"
      using allSpace_suffix by blast
    have "TrimSpace x = ''module'' @ ([CHR '' ''] @ rest)" unfolding rest by simp
    then have "suffix p (TrimSpace x)" using p(2) by (simp only: suffix_append) simp
    then have "0 < spaceWidthEnd (TrimSpace x)"
      using p(1) spaceWidthEnd_pos_iff by blast
    then show False using spaceWidthEnd_TrimSpace by simp
  qed
  then show ?thesis unfolding rest Fields_module by (cases "fieldsLoop 0 [] rest") auto
qed

lemma parseLines_exact:
  "\<forall>raw \<in> set ls. int (length raw) < MaxScanTokenSize \<Longrightarrow>
     parseLines ls =
       (case find (\<lambda>line. HasPrefix line ''module '') (map (\<lambda>raw. TrimSpace (dropCR raw)) ls) of
          None \<Rightarrow> Inl ModuleDirectiveNotFound
        | Some line \<Rightarrow> Inr (Fields line ! 1))"
proof (induction ls)
  case Nil
  then show ?case by simp
next
  case (Cons raw ls)
  have short: "\<not> MaxScanTokenSize \<le> int (length raw)" using Cons.prems by simp
  show ?case
  proof (cases "HasPrefix (TrimSpace (dropCR raw)) ''module ''")
    case True
    then have "\<not> length (Fields (TrimSpace (dropCR raw))) < 2"
      using module_line_fields[of "dropCR raw"] by simp
    then show ?thesis using True short by (simp add: Let_def)
  next
    case False
    then show ?thesis using short Cons by (simp add: Let_def)
  qed
qed

lemma parseModuleDirective_exact:
  assumes "\<forall>raw \<in> set (rawLines contents). int (length raw) < MaxScanTokenSize"
  shows "parseModuleDirective contents =
           (case firstModuleLine contents of
              None \<Rightarrow> Inl ModuleDirectiveNotFound
            | Some line \<Rightarrow> Inr (Fields line ! 1))"
  using parseLines_exact[OF assms] by (simp add: parseModuleDirective_def firstModuleLine_def)

lemma funpow_fixed: "f d = d \<Longrightarrow> (f ^^ n) d = d"
  by (induction n) simp_all

lemma findModuleLoop_reads:
  assumes "\<forall>j<k. os_ReadFile S h (filepath_Join S ((filepath_Dir S ^^ j) d) ''go.mod'') = Inl ErrNotExist"
    and "os_ReadFile S h (filepath_Join S ((filepath_Dir S ^^ k) d) ''go.mod'') = Inr contents"
    and "k < fuel"
  shows "findModuleLoop fuel S h start d =
           (case parseModuleDirective contents of
              Inl e \<Rightarrow> Some (Inl e)
            | Inr modulePath \<Rightarrow> Some (Inr ((filepath_Dir S ^^ k) d, modulePath)))"
  using assms
proof (induction k arbitrary: d fuel)
  case 0
  then obtain f where "fuel = Suc f" by (cases fuel) auto
  with 0 show ?case by (simp split: sum.splits)
next
  case (Suc k)
  then obtain f where f: "fuel = Suc f" "k < f" by (cases fuel) auto
  have here: "os_ReadFile S h (filepath_Join S d ''go.mod'') = Inl ErrNotExist"
    using Suc.prems(1) by (metis funpow_0 zero_less_Suc)
  have up: "filepath_Dir S d \<noteq> d"
  proof
    assume "filepath_Dir S d = d"
    then have "(filepath_Dir S ^^ Suc k) d = d" by (rule funpow_fixed)
    with Suc.prems(2) here show False by simp
  qed
  have a: "\<forall>j<k. os_ReadFile S h
             (filepath_Join S ((filepath_Dir S ^^ j) (filepath_Dir S d)) ''go.mod'') = Inl ErrNotExist"
  proof (intro allI impI)
    fix j assume "j < k"
    then have "Suc j < Suc k" by simp
    then show "os_ReadFile S h
        (filepath_Join S ((filepath_Dir S ^^ j) (filepath_Dir S d)) ''go.mod'') = Inl ErrNotExist"
      using Suc.prems(1) by (metis funpow_swap1 funpow.simps(2) o_apply)
  qed
  have b: "os_ReadFile S h
             (filepath_Join S ((filepath_Dir S ^^ k) (filepath_Dir S d)) ''go.mod'') = Inr contents"
    using Suc.prems(2) by (simp add: funpow_swap1)
  from Suc.IH[OF a b f(2)] here up show ?case
    by (simp add: f Let_def funpow_swap1 split: sum.splits)
qed




section \<open>The import path inferrer\<close>

lemma inferLocalImportPath_unfold:
  assumes "filepath_Abs S h (if src = [] then ''./'' else src) = Inr a"
    and "findModulePath fuel S h a = Some (Inr (md, mp))"
    and "detectPackageName S h a = Inr pkg"
    and "filepath_Rel S md a = Inr rp"
  shows "inferLocalImportPath fuel S src h =
    (case lookupPackageDir S (computedImportPath S mp rp pkg) md h of
       (Inr (dir, isStd), h1) \<Rightarrow>
         Some (Inr \<lparr>ModuleImportPath = computedImportPath S mp rp pkg,
                    SourceDirectory = (if dir = [] then a else dir)\<rparr>, h1)
     | (Inl e1, h1) \<Rightarrow>
         (case lookupPackageDir S (baseImportPath S mp rp) md h1 of
            (Inr (altDir, isStd), h2) \<Rightarrow>
              Some (Inr \<lparr>ModuleImportPath = baseImportPath S mp rp,
                         SourceDirectory = (if altDir = [] then a else altDir)\<rparr>, h2)
          | (Inl e2, h2) \<Rightarrow>
              Some (Inr \<lparr>ModuleImportPath = computedImportPath S mp rp pkg,
                         SourceDirectory = a\<rparr>, h2)))"
  using assms by (simp add: inferLocalImportPath_def Let_def)

lemma lookupPackageDir_trace:
  "snd (lookupPackageDir S importPath workDir h) = h @ [GoList importPath workDir]"
  by (cases "go_list S h importPath workDir")
     (simp add: lookupPackageDir_def Let_def split: option.splits)

lemma firstSourceFile_find:
  "firstSourceFile S h dir entries =
     (case find isPackageSource entries of
        None \<Rightarrow> Inl (NoGoSourceFiles dir)
      | Some (name, isDir) \<Rightarrow> parser_ParseFile S h (filepath_Join S dir name))"
  by (induction entries) (auto split: prod.splits)

lemma detectPackageName_reads:
  assumes "os_ReadDir S h dir = Inr entries"
    and "find isPackageSource entries = Some (name, isDir)"
  shows "detectPackageName S h dir = parser_ParseFile S h (filepath_Join S dir name)"
  using assms by (simp add: detectPackageName_def firstSourceFile_find)

lemma findModulePath_reads:
  assumes "\<forall>j<k. os_ReadFile S h (filepath_Join S ((filepath_Dir S ^^ j) a) ''go.mod'') = Inl ErrNotExist"
    and "os_ReadFile S h (filepath_Join S ((filepath_Dir S ^^ k) a) ''go.mod'') = Inr contents"
    and "\<forall>raw \<in> set (rawLines contents). int (length raw) < MaxScanTokenSize"
    and "firstModuleLine contents = Some line"
    and "k < fuel"
  shows "findModulePath fuel S h a = Some (Inr ((filepath_Dir S ^^ k) a, Fields line ! 1))"
  unfolding findModulePath_def
  using findModuleLoop_reads[OF assms(1,2,5)] parseModuleDirective_exact[OF assms(3)] assms(4)
  by simp

lemma inferLocalImportPath_chain:
  assumes "filepath_Abs S h (if src = [] then ''./'' else src) = Inr a"
    and "findModulePath fuel S h a = Some (Inr (md, mp))"
    and "detectPackageName S h a = Inr pkg"
    and "filepath_Rel S md a = Inr rp"
  defines "c \<equiv> computedImportPath S mp rp pkg"
    and "b \<equiv> baseImportPath S mp rp"
  defines "first \<equiv> fst (lookupPackageDir S c md h)"
    and "second \<equiv> fst (lookupPackageDir S b md (h @ [GoList c md]))"
  shows "(\<forall>dir isStd. first = Inr (dir, isStd) \<longrightarrow>
            inferLocalImportPath fuel S src h =
              Some (Inr \<lparr>ModuleImportPath = c, SourceDirectory = (if dir = [] then a else dir)\<rparr>,
                    h @ [GoList c md]))
       \<and> (\<forall>e1 dir isStd. first = Inl e1 \<and> second = Inr (dir, isStd) \<longrightarrow>
            inferLocalImportPath fuel S src h =
              Some (Inr \<lparr>ModuleImportPath = b, SourceDirectory = (if dir = [] then a else dir)\<rparr>,
                    h @ [GoList c md, GoList b md]))
       \<and> (\<forall>e1 e2. first = Inl e1 \<and> second = Inl e2 \<longrightarrow>
            inferLocalImportPath fuel S src h =
              Some (Inr \<lparr>ModuleImportPath = c, SourceDirectory = a\<rparr>,
                    h @ [GoList c md, GoList b md]))
       \<and> (\<exists>ip h'. inferLocalImportPath fuel S src h = Some (Inr ip, h'))"
proof -
  obtain r1 h1 where l1: "lookupPackageDir S c md h = (r1, h1)"
    by (cases "lookupPackageDir S c md h") auto
  have h1: "h1 = h @ [GoList c md]" using lookupPackageDir_trace[of S c md h] l1 by simp
  obtain r2 h2 where l2: "lookupPackageDir S b md h1 = (r2, h2)"
    by (cases "lookupPackageDir S b md h1") auto
  have h2: "h2 = h @ [GoList c md, GoList b md]"
    using lookupPackageDir_trace[of S b md h1] l2 h1 by simp
  have f: "first = r1" "second = r2" using l1 l2 h1 by (simp_all add: first_def second_def)
  show ?thesis
    unfolding inferLocalImportPath_unfold[OF assms(1-4)] f
    using l1 l2 h1 h2
    by (cases r1; cases r2) (auto simp: c_def[symmetric] b_def[symmetric])
qed

text \<open>
  C1, as the code has it. Take a source directory for which go.mod is read in the \<open>k\<close>-th
  parent and in no nearer directory, with lines that fit the scanner's buffer and a line
  that the locator takes as the module line; whose first entry that is a file named
  \<open>*.go\<close> and not \<open>*_test.go\<close> has a package clause that parses; and whose path relative to
  the module root is computed. The inference first asks the go command for the computed
  import path. If that fails it asks a second time, for the import path without the
  package name, and on success takes that path as the import path. If both fail the source
  directory is the absolute source directory itself. In every case the inference returns
  an import path and no error.
\<close>

theorem inferLocalImportPath_fallback:
  assumes "filepath_Abs S h (if src = [] then ''./'' else src) = Inr a"
    and "\<forall>j<k. os_ReadFile S h (filepath_Join S ((filepath_Dir S ^^ j) a) ''go.mod'') = Inl ErrNotExist"
    and "os_ReadFile S h (filepath_Join S ((filepath_Dir S ^^ k) a) ''go.mod'') = Inr contents"
    and "\<forall>raw \<in> set (rawLines contents). int (length raw) < MaxScanTokenSize"
    and "firstModuleLine contents = Some line"
    and "k < fuel"
    and "os_ReadDir S h a = Inr entries"
    and "find isPackageSource entries = Some (name, isDir)"
    and "parser_ParseFile S h (filepath_Join S a name) = Inr pkg"
    and "filepath_Rel S ((filepath_Dir S ^^ k) a) a = Inr rp"
  defines "md \<equiv> (filepath_Dir S ^^ k) a"
  defines "c \<equiv> computedImportPath S (Fields line ! 1) rp pkg"
    and "b \<equiv> baseImportPath S (Fields line ! 1) rp"
  defines "first \<equiv> fst (lookupPackageDir S c md h)"
    and "second \<equiv> fst (lookupPackageDir S b md (h @ [GoList c md]))"
  shows "(\<forall>dir isStd. first = Inr (dir, isStd) \<longrightarrow>
            inferLocalImportPath fuel S src h =
              Some (Inr \<lparr>ModuleImportPath = c, SourceDirectory = (if dir = [] then a else dir)\<rparr>,
                    h @ [GoList c md]))
       \<and> (\<forall>e1 dir isStd. first = Inl e1 \<and> second = Inr (dir, isStd) \<longrightarrow>
            inferLocalImportPath fuel S src h =
              Some (Inr \<lparr>ModuleImportPath = b, SourceDirectory = (if dir = [] then a else dir)\<rparr>,
                    h @ [GoList c md, GoList b md]))
       \<and> (\<forall>e1 e2. first = Inl e1 \<and> second = Inl e2 \<longrightarrow>
            inferLocalImportPath fuel S src h =
              Some (Inr \<lparr>ModuleImportPath = c, SourceDirectory = a\<rparr>,
                    h @ [GoList c md, GoList b md]))
       \<and> (\<exists>ip h'. inferLocalImportPath fuel S src h = Some (Inr ip, h'))"
proof -
  have fm: "findModulePath fuel S h a = Some (Inr (md, Fields line ! 1))"
    unfolding md_def using assms(2-6) by (rule findModulePath_reads)
  have pk: "detectPackageName S h a = Inr pkg"
    using detectPackageName_reads[OF assms(7,8)] assms(9) by simp
  have rl: "filepath_Rel S md a = Inr rp" using assms(10) by (simp add: md_def)
  show ?thesis
    unfolding first_def second_def c_def b_def
    by (rule inferLocalImportPath_chain[OF assms(1) fm pk rl])
qed

text \<open>
  The package \<open>widget\<close> in the directory \<open>pkg/v2\<close>: with a go command that always fails
  the literal directory is used; in the test environment the second resolution succeeds.
\<close>

theorem inferLocalImportPath_fallback_witness:
  "filepath_Abs offlineSys [] ''/tmp/root/pkg/v2'' = Inr ''/tmp/root/pkg/v2''
   \<and> os_ReadFile offlineSys []
        (filepath_Join offlineSys ((filepath_Dir offlineSys ^^ 0) ''/tmp/root/pkg/v2'') ''go.mod'')
       = Inl ErrNotExist
   \<and> os_ReadFile offlineSys []
        (filepath_Join offlineSys ((filepath_Dir offlineSys ^^ 1) ''/tmp/root/pkg/v2'') ''go.mod'')
       = Inl ErrNotExist
   \<and> os_ReadFile offlineSys []
        (filepath_Join offlineSys ((filepath_Dir offlineSys ^^ 2) ''/tmp/root/pkg/v2'') ''go.mod'')
       = Inr (''module example.com/project'' @ [newline, newline])
   \<and> list_all (\<lambda>raw. int (length raw) < MaxScanTokenSize)
         (rawLines (''module example.com/project'' @ [newline, newline]))
   \<and> firstModuleLine (''module example.com/project'' @ [newline, newline])
       = Some ''module example.com/project''
   \<and> os_ReadDir offlineSys [] ''/tmp/root/pkg/v2'' = Inr [(''testdata'', True), (''widget.go'', False)]
   \<and> find isPackageSource [(''testdata'', True), (''widget.go'', False)] = Some (''widget.go'', False)
   \<and> parser_ParseFile offlineSys [] (filepath_Join offlineSys ''/tmp/root/pkg/v2'' ''widget.go'')
       = Inr ''widget''
   \<and> filepath_Rel offlineSys ((filepath_Dir offlineSys ^^ 2) ''/tmp/root/pkg/v2'') ''/tmp/root/pkg/v2''
       = Inr ''pkg/v2''
   \<and> fst (lookupPackageDir offlineSys ''example.com/project/pkg/v2/widget'' ''/tmp/root'' [])
       = Inl (GoListFailed ''example.com/project/pkg/v2/widget'' (SysError ''exit status 1'')
                ''go: command failed'')
   \<and> fst (lookupPackageDir offlineSys ''example.com/project/pkg/v2'' ''/tmp/root''
              [GoList ''example.com/project/pkg/v2/widget'' ''/tmp/root''])
       = Inl (GoListFailed ''example.com/project/pkg/v2'' (SysError ''exit status 1'')
                ''go: command failed'')
   \<and> inferLocalImportPath 4 offlineSys ''/tmp/root/pkg/v2'' []
       = Some (Inr \<lparr>ModuleImportPath = ''example.com/project/pkg/v2/widget'',
                    SourceDirectory = ''/tmp/root/pkg/v2''\<rparr>,
               [GoList ''example.com/project/pkg/v2/widget'' ''/tmp/root'',
                GoList ''example.com/project/pkg/v2'' ''/tmp/root''])
   \<and> inferLocalImportPath 4 testSys ''/tmp/root/pkg/v2'' []
       = Some (Inr \<lparr>ModuleImportPath = ''example.com/project/pkg/v2'',
                    SourceDirectory = ''/tmp/root/pkg/v2''\<rparr>,
               [GoList ''example.com/project/pkg/v2/widget'' ''/tmp/root'',
                GoList ''example.com/project/pkg/v2'' ''/tmp/root''])"
proof -
  let ?a = "''/tmp/root/pkg/v2''"
  let ?c = "''example.com/project/pkg/v2/widget''"
  let ?b = "''example.com/project/pkg/v2''"
  let ?m = "''module example.com/project'' @ [newline, newline]"
  let ?R = "\<lambda>j. os_ReadFile offlineSys []
        (filepath_Join offlineSys ((filepath_Dir offlineSys ^^ j) ?a) ''go.mod'')"
  have ab: "filepath_Abs offlineSys [] (if ?a = [] then ''./'' else ?a) = Inr ?a" by code_simp
  have ab': "filepath_Abs offlineSys [] ?a = Inr ?a" by code_simp
  have r0: "?R 0 = Inl ErrNotExist" by code_simp
  have r1: "?R 1 = Inl ErrNotExist" by code_simp
  have r2: "?R 2 = Inr ?m" by code_simp
  have below: "\<forall>j<2. ?R j = Inl ErrNotExist"
  proof (intro allI impI)
    fix j :: nat assume "j < 2"
    then have "j = 0 \<or> j = 1" by arith
    then show "?R j = Inl ErrNotExist" using r0 r1 by blast
  qed
  have short: "list_all (\<lambda>raw. int (length raw) < MaxScanTokenSize) (rawLines ?m)" by code_simp
  then have short': "\<forall>raw \<in> set (rawLines ?m). int (length raw) < MaxScanTokenSize"
    by (simp add: list_all_iff)
  have line: "firstModuleLine ?m = Some ''module example.com/project''" by code_simp
  have lt: "(2::nat) < 4" by simp
  have rd: "os_ReadDir offlineSys [] ?a = Inr [(''testdata'', True), (''widget.go'', False)]"
    by code_simp
  have fi: "find isPackageSource [(''testdata'', True), (''widget.go'', False)]
              = Some (''widget.go'', False)" by code_simp
  have pa: "parser_ParseFile offlineSys [] (filepath_Join offlineSys ?a ''widget.go'') = Inr ''widget''"
    by code_simp
  have rl: "filepath_Rel offlineSys ((filepath_Dir offlineSys ^^ 2) ?a) ?a = Inr ''pkg/v2''"
    by code_simp
  have md: "(filepath_Dir offlineSys ^^ 2) ?a = ''/tmp/root''" by code_simp
  have c: "computedImportPath offlineSys (Fields ''module example.com/project'' ! 1) ''pkg/v2'' ''widget''
             = ?c" by code_simp
  have b: "baseImportPath offlineSys (Fields ''module example.com/project'' ! 1) ''pkg/v2'' = ?b"
    by code_simp
  have f1: "fst (lookupPackageDir offlineSys ?c ''/tmp/root'' [])
       = Inl (GoListFailed ?c (SysError ''exit status 1'') ''go: command failed'')" by code_simp
  have f2: "fst (lookupPackageDir offlineSys ?b ''/tmp/root'' [GoList ?c ''/tmp/root''])
       = Inl (GoListFailed ?b (SysError ''exit status 1'') ''go: command failed'')" by code_simp
  have t: "inferLocalImportPath 4 testSys ?a []
       = Some (Inr \<lparr>ModuleImportPath = ?b, SourceDirectory = ?a\<rparr>,
               [GoList ?c ''/tmp/root'', GoList ?b ''/tmp/root''])" by code_simp
  from inferLocalImportPath_fallback[OF ab below r2 short' line lt rd fi pa rl] md c b f1 f2
  have "inferLocalImportPath 4 offlineSys ?a []
       = Some (Inr \<lparr>ModuleImportPath = ?c, SourceDirectory = ?a\<rparr>,
               [GoList ?c ''/tmp/root'', GoList ?b ''/tmp/root''])"
    by simp
  then show ?thesis using ab' r0 r1 r2 short line rd fi pa rl f1 f2 t by blast
qed

text \<open>
  C1, as the claim states it, fails: the directory \<open>foo\<close> has the go.mod of the module above
  it and a source file, the package clause of the file does not parse, and the inference
  returns the parser's error without asking the go command.
\<close>

theorem inferLocalImportPath_unparsable_counterexample:
  "os_ReadFile brokenSys [] (filepath_Join brokenSys ''/tmp/root'' ''go.mod'')
     = Inr (''module example.com/project'' @ [newline, newline])
   \<and> os_ReadDir brokenSys [] ''/tmp/root/foo'' = Inr [(''foo_test.go'', False), (''foo.go'', False)]
   \<and> inferLocalImportPath 4 brokenSys ''/tmp/root/foo'' []
       = Some (Inl (SysError ''expected package, found EOF''), [])"
  by code_simp

text \<open>
  C4. The inferred import path is the module path joined with the relative directory
  path, or that path with the package name appended; the name is appended only if it is
  not empty, is not \<open>main\<close> and differs from the last segment of the path. For a package
  \<open>main\<close> the inferred import path is exactly the module path joined with the relative
  directory path.
\<close>

theorem inferLocalImportPath_package_suffix:
  assumes "filepath_Abs S h (if src = [] then ''./'' else src) = Inr a"
    and "findModulePath fuel S h a = Some (Inr (md, mp))"
    and "detectPackageName S h a = Inr pkg"
    and "filepath_Rel S md a = Inr rp"
  defines "b \<equiv> (if rp \<noteq> ''.'' then path_Join S mp (filepath_ToSlash S rp) else mp)"
  shows "\<exists>ip h'. inferLocalImportPath fuel S src h = Some (Inr ip, h')
       \<and> (ModuleImportPath ip = b
           \<or> ModuleImportPath ip = path_Join S b pkg
              \<and> pkg \<noteq> [] \<and> pkg \<noteq> ''main'' \<and> path_Base S b \<noteq> pkg)
       \<and> (pkg = ''main'' \<longrightarrow> ModuleImportPath ip = b)"
proof -
  have bb: "baseImportPath S mp rp = b" by (simp add: b_def baseImportPath_def)
  have cc: "computedImportPath S mp rp pkg = b
          \<or> computedImportPath S mp rp pkg = path_Join S b pkg
              \<and> pkg \<noteq> [] \<and> pkg \<noteq> ''main'' \<and> path_Base S b \<noteq> pkg"
    by (simp add: computedImportPath_def bb Let_def)
  have mm: "pkg = ''main'' \<Longrightarrow> computedImportPath S mp rp pkg = b"
    by (simp add: computedImportPath_def bb Let_def)
  obtain r1 h1 where l1: "lookupPackageDir S (computedImportPath S mp rp pkg) md h = (r1, h1)"
    by (cases "lookupPackageDir S (computedImportPath S mp rp pkg) md h") auto
  obtain r2 h2 where l2: "lookupPackageDir S b md h1 = (r2, h2)"
    by (cases "lookupPackageDir S b md h1") auto
  show ?thesis
    unfolding inferLocalImportPath_unfold[OF assms(1-4)] bb
    using l1 l2 cc mm
    by (cases r1; cases r2) auto
qed

text \<open>The test of the repository: a main program in \<open>cmd/tool\<close>.\<close>

theorem inferLocalImportPath_package_suffix_witness:
  "filepath_Abs testSys [] ''/tmp/root/cmd/tool'' = Inr ''/tmp/root/cmd/tool''
   \<and> findModulePath 4 testSys [] ''/tmp/root/cmd/tool''
       = Some (Inr (''/tmp/root'', ''example.com/project''))
   \<and> detectPackageName testSys [] ''/tmp/root/cmd/tool'' = Inr ''main''
   \<and> filepath_Rel testSys ''/tmp/root'' ''/tmp/root/cmd/tool'' = Inr ''cmd/tool''
   \<and> (\<exists>ip h'. inferLocalImportPath 4 testSys ''/tmp/root/cmd/tool'' [] = Some (Inr ip, h')
         \<and> ModuleImportPath ip = ''example.com/project/cmd/tool'')"
proof -
  let ?a = "''/tmp/root/cmd/tool''"
  have ab: "filepath_Abs testSys [] (if ?a = [] then ''./'' else ?a) = Inr ?a" by code_simp
  have ab': "filepath_Abs testSys [] ?a = Inr ?a" by code_simp
  have fm: "findModulePath 4 testSys [] ?a = Some (Inr (''/tmp/root'', ''example.com/project''))"
    by code_simp
  have pk: "detectPackageName testSys [] ?a = Inr ''main''" by code_simp
  have rl: "filepath_Rel testSys ''/tmp/root'' ?a = Inr ''cmd/tool''" by code_simp
  have b: "(if ''cmd/tool'' \<noteq> ''.''
            then path_Join testSys ''example.com/project'' (filepath_ToSlash testSys ''cmd/tool'')
            else ''example.com/project'') = ''example.com/project/cmd/tool''" by code_simp
  from inferLocalImportPath_package_suffix[OF ab fm pk rl]
  obtain ip h' where r: "inferLocalImportPath 4 testSys ?a [] = Some (Inr ip, h')"
    and m: "ModuleImportPath ip = (if ''cmd/tool'' \<noteq> ''.''
            then path_Join testSys ''example.com/project'' (filepath_ToSlash testSys ''cmd/tool'')
            else ''example.com/project'')"
    by blast
  from r m b have "\<exists>ip h'. inferLocalImportPath 4 testSys ?a [] = Some (Inr ip, h')
         \<and> ModuleImportPath ip = ''example.com/project/cmd/tool''" by (metis (full_types))
  then show ?thesis using ab' fm pk rl by blast
qed

section \<open>Output file names\<close>

lemma unwrapPtr_derefs:
  "derefs E n t = Some u \<Longrightarrow> n < fuel \<Longrightarrow> unwrapPtr fuel E t = Some u"
proof (induction n arbitrary: t fuel)
  case 0
  then obtain f where "fuel = Suc f" by (cases fuel) auto
  with 0 show ?case by (auto split: shape.splits)
next
  case (Suc n)
  then obtain f where f: "fuel = Suc f" "n < f" by (cases fuel) auto
  from Suc.prems(1) obtain e where e: "Shape (E t) = Ptr e" "derefs E n e = Some u"
    by (auto split: shape.splits)
  with Suc.IH[OF e(2) f(2)] show ?case by (simp add: f)
qed

lemma exportedName_yes:
  "namedExported S t \<Longrightarrow> exportedName S (rtypes S t) = Name (rtypes S t)"
  "namedExported S t \<Longrightarrow> Name (rtypes S t) \<noteq> []"
  by (simp_all add: exportedName_def namedExported_def)

lemma exportedName_no: "\<not> namedExported S t \<Longrightarrow> exportedName S (rtypes S t) = []"
  by (auto simp: exportedName_def namedExported_def)

lemma elemSliceName_derefs:
  "derefs (rtypes S) k e = Some v \<Longrightarrow> k < fuel \<Longrightarrow>
     elemSliceName fuel S e =
       Some (if namedExported S v then Name (rtypes S v) @ ''Slice'' else [])"
  by (cases "namedExported S v")
     (simp_all add: elemSliceName_def unwrapPtr_derefs exportedName_yes exportedName_no)

lemma writeEach_skip:
  "toString fuel S model = Some [] \<Longrightarrow>
     writeEach fuel S g outputDir (model # models) h = writeEach fuel S g outputDir models h"
  by simp

text \<open>
  C8. For a model whose type is a type \<open>u\<close> under any number \<open>n\<close> of pointers: the file
  name is the name of \<open>u\<close> if \<open>u\<close> is a named exported type; if it is not and \<open>u\<close> is a
  slice or an array whose element type is a type \<open>v\<close> under pointers, the file name is the
  name of \<open>v\<close> with the suffix \<open>Slice\<close> if \<open>v\<close> is a named exported type and empty if not; in
  every other case, and for nil, the file name is empty. WriteSchemas skips a model with
  an empty file name: the batch does what the batch without that model does.
\<close>

theorem toString_names:
  assumes "derefs (rtypes S) n t = Some u" and "n < fuel"
  shows "(namedExported S u \<longrightarrow> toString fuel S (Some t) = Some (Name (rtypes S u)))
       \<and> (\<not> namedExported S u
            \<and> (Shape (rtypes S u) = Slice e \<or> Shape (rtypes S u) = Array e)
            \<and> derefs (rtypes S) k e = Some v \<and> k < fuel
          \<longrightarrow> toString fuel S (Some t)
                = Some (if namedExported S v then Name (rtypes S v) @ ''Slice'' else []))
       \<and> (\<not> namedExported S u
            \<and> (\<forall>e. Shape (rtypes S u) \<noteq> Slice e \<and> Shape (rtypes S u) \<noteq> Array e)
          \<longrightarrow> toString fuel S (Some t) = Some [])
       \<and> toString fuel S None = Some []
       \<and> (toString fuel S model = Some []
          \<longrightarrow> WriteSchemas fuel S g outputDir (model # models) h
              = WriteSchemas fuel S g outputDir models h)"
proof (intro conjI impI)
  have uw: "unwrapPtr fuel (rtypes S) t = Some u" using assms by (rule unwrapPtr_derefs)
  show "toString fuel S (Some t) = Some (Name (rtypes S u))" if "namedExported S u"
    using that uw by (simp add: toString_def exportedName_yes)
  show "toString fuel S (Some t)
          = Some (if namedExported S v then Name (rtypes S v) @ ''Slice'' else [])"
    if "\<not> namedExported S u
            \<and> (Shape (rtypes S u) = Slice e \<or> Shape (rtypes S u) = Array e)
            \<and> derefs (rtypes S) k e = Some v \<and> k < fuel"
    using that uw elemSliceName_derefs[of S k e v fuel]
    by (auto simp: toString_def exportedName_no)
  show "toString fuel S (Some t) = Some []"
    if "\<not> namedExported S u
            \<and> (\<forall>e. Shape (rtypes S u) \<noteq> Slice e \<and> Shape (rtypes S u) \<noteq> Array e)"
    using that uw by (auto simp: toString_def exportedName_no split: shape.splits)
  show "toString fuel S None = Some []" by (simp add: toString_def)
  show "WriteSchemas fuel S g outputDir (model # models) h
              = WriteSchemas fuel S g outputDir models h"
    if "toString fuel S model = Some []"
    using that by (cases models) (simp_all add: WriteSchemas_def)
qed

text \<open>The tests of the repository: Subject, a pointer to it, a slice of pointers, wrapper.\<close>

theorem toString_names_witness:
  "derefs (rtypes testSys) 0 10 = Some 10 \<and> (0::nat) < 10
   \<and> \<not> namedExported testSys 10
   \<and> Shape (rtypes testSys 10) = Slice 9
   \<and> derefs (rtypes testSys) 1 9 = Some 0 \<and> (1::nat) < 10
   \<and> namedExported testSys 0
   \<and> toString 10 testSys (Some 10) = Some ''SubjectSlice''
   \<and> toString 10 testSys (Some 0) = Some ''Subject''
   \<and> toString 10 testSys (Some 9) = Some ''Subject''
   \<and> toString 10 testSys (Some 11) = Some []
   \<and> WriteSchemas 10 testSys \<lparr>filesThatMustExist = [], importPaths = []\<rparr> ''/out'' [Some 11] []
       = Some (None, \<lparr>filesThatMustExist = [], importPaths = []\<rparr>, [])"
proof -
  have d: "derefs (rtypes testSys) 0 10 = Some 10" by code_simp
  have lt: "(0::nat) < 10" "(1::nat) < 10" by simp_all
  have nn: "\<not> namedExported testSys 10" by code_simp
  have sh: "Shape (rtypes testSys 10) = Slice 9" by code_simp
  have de: "derefs (rtypes testSys) 1 9 = Some 0" by code_simp
  have ne: "namedExported testSys 0" by code_simp
  have nm: "Name (rtypes testSys 0) @ ''Slice'' = ''SubjectSlice''" by code_simp
  have s0: "toString 10 testSys (Some 0) = Some ''Subject''" by code_simp
  have s9: "toString 10 testSys (Some 9) = Some ''Subject''" by code_simp
  have s11: "toString 10 testSys (Some 11) = Some []" by code_simp
  have e: "WriteSchemas 10 testSys \<lparr>filesThatMustExist = [], importPaths = []\<rparr> ''/out'' [] []
       = Some (None, \<lparr>filesThatMustExist = [], importPaths = []\<rparr>, [])"
    by (simp add: WriteSchemas_def)
  note t = toString_names[where S = testSys and n = 0 and t = 10 and u = 10 and fuel = 10
      and e = 9 and k = 1 and v = 0 and model = "Some 11"
      and g = "\<lparr>filesThatMustExist = [], importPaths = []\<rparr>" and outputDir = "''/out''"
      and models = "[]" and h = "[]", OF d lt(1)]
  from t nn sh de lt(2) ne nm have a: "toString 10 testSys (Some 10) = Some ''SubjectSlice''"
    by simp
  from t s11 e have b:
    "WriteSchemas 10 testSys \<lparr>filesThatMustExist = [], importPaths = []\<rparr> ''/out'' [Some 11] []
       = Some (None, \<lparr>filesThatMustExist = [], importPaths = []\<rparr>, [])"
    by simp
  show ?thesis using d lt nn sh de ne a s0 s9 s11 b by blast
qed

section \<open>Writing a batch\<close>

lemma writeEach_append:
  "writeEach fuel S g outputDir pre h = Some (None, g1, h1) \<Longrightarrow>
     writeEach fuel S g outputDir (pre @ rest) h = writeEach fuel S g1 outputDir rest h1"
proof (induction pre arbitrary: g h)
  case Nil
  then show ?case by simp
next
  case (Cons m pre)
  then show ?case
    by (auto split: option.splits if_splits prod.splits)
qed

text \<open>
  C9. When the models before a model are written or skipped without error and writing
  that model fails (its generation, or making the directory, creating or writing the
  file), WriteSchemas returns that error, and the generator and the trace of operations
  are those at the failure, whatever models follow: none of them is processed.
\<close>

theorem WriteSchemas_aborts:
  assumes "WriteSchemas fuel S g outputDir pre h = Some (None, g1, h1)"
    and "toString fuel S m = Some filename" and "filename \<noteq> []"
    and "WriteSchema fuel S g1 m (filepath_Join S outputDir (filename @ ''.schema.json'')) h1
           = Some (Some e, g2, h2)"
  shows "WriteSchemas fuel S g outputDir (pre @ m # post) h = Some (Some e, g2, h2)"
proof -
  have "writeEach fuel S g outputDir pre h = Some (None, g1, h1)"
    using assms(1) by (cases pre) (simp_all add: WriteSchemas_def)
  then have "writeEach fuel S g outputDir (pre @ m # post) h
               = writeEach fuel S g1 outputDir (m # post) h1"
    by (rule writeEach_append)
  also have "\<dots> = Some (Some e, g2, h2)" using assms(2-4) by simp
  finally show ?thesis by (simp add: WriteSchemas_def)
qed

text \<open>
  A batch of wrapper (skipped), Subject (its file cannot be created) and Time (not
  reached) in the test environment.
\<close>

theorem WriteSchemas_aborts_witness:
  "WriteSchemas 10 testSys \<lparr>filesThatMustExist = [], importPaths = []\<rparr> ''/ro'' [Some 11] []
     = Some (None, \<lparr>filesThatMustExist = [], importPaths = []\<rparr>, [])
   \<and> toString 10 testSys (Some 0) = Some ''Subject'' \<and> ''Subject'' \<noteq> []
   \<and> WriteSchema 10 testSys \<lparr>filesThatMustExist = [], importPaths = []\<rparr> (Some 0)
         (filepath_Join testSys ''/ro'' (''Subject'' @ ''.schema.json'')) []
       = Some (Some (SysError ''read-only file system''),
               \<lparr>filesThatMustExist = [], importPaths = testResolved\<rparr>,
               testResolveTrace @ testHarvestTrace
                 @ [Reflect (Some 0), MkdirAll ''/ro'', Create ''/ro/Subject.schema.json''])
   \<and> WriteSchemas 10 testSys \<lparr>filesThatMustExist = [], importPaths = []\<rparr> ''/ro''
         ([Some 11] @ Some 0 # [Some 4]) []
       = Some (Some (SysError ''read-only file system''),
               \<lparr>filesThatMustExist = [], importPaths = testResolved\<rparr>,
               testResolveTrace @ testHarvestTrace
                 @ [Reflect (Some 0), MkdirAll ''/ro'', Create ''/ro/Subject.schema.json''])"
proof -
  have a: "WriteSchemas 10 testSys \<lparr>filesThatMustExist = [], importPaths = []\<rparr> ''/ro'' [Some 11] []
     = Some (None, \<lparr>filesThatMustExist = [], importPaths = []\<rparr>, [])" by code_simp
  have b: "toString 10 testSys (Some 0) = Some ''Subject''" by code_simp
  have c: "''Subject'' \<noteq> []" by simp
  have d: "WriteSchema 10 testSys \<lparr>filesThatMustExist = [], importPaths = []\<rparr> (Some 0)
         (filepath_Join testSys ''/ro'' (''Subject'' @ ''.schema.json'')) []
       = Some (Some (SysError ''read-only file system''),
               \<lparr>filesThatMustExist = [], importPaths = testResolved\<rparr>,
               testResolveTrace @ testHarvestTrace
                 @ [Reflect (Some 0), MkdirAll ''/ro'', Create ''/ro/Subject.schema.json''])"
    by code_simp
  from WriteSchemas_aborts[OF a b c d, of "[Some 4]"] a b c d show ?thesis by blast
qed

section \<open>The walk over the types ends\<close>









section \<open>Required files\<close>














section \<open>Dependent packages\<close>

text \<open>
  The list that collectDependentPackages returns is sorted and without repetitions, and
  the test of the repository finds the packages of time and uuid (and the package of the
  struct itself).
\<close>

lemma collectDependentPackages_sorted:
  "collectDependentPackages fuel S models = Some out \<Longrightarrow> sorted out \<and> distinct out"
  by (auto simp: collectDependentPackages_def)

lemma collect_nested:
  "collectDependentPackages 10 testSys [Some 13]
     = Some [''github.com/google/uuid'', ''pkt.systems/schemator'', ''time'']"
  by code_simp

lemma loop_shape: "Shape (rtypes testSys 20) = Ptr 20"
  by code_simp

lemma unwrapPtr_loop: "unwrapPtr fuel (rtypes testSys) 20 = None"
  by (induction fuel) (simp_all add: loop_shape)

text \<open>
  C2 states that for every set of model values the collection visits each type at most
  once, guarded by the set of visited types, and returns the sorted package paths. On a
  model of the type \<open>Loop\<close> (\<open>type Loop *Loop\<close>, a pointer type that points to itself) the
  code does not return: the loop that unwraps pointers runs before the test of the
  visited set and never ends, whatever the fuel.
\<close>

theorem collectDependentPackages_loop:
  "collectDependentPackages fuel testSys [Some 20] = None"
proof (cases fuel)
  case 0
  then show ?thesis by (simp add: collectDependentPackages_def)
next
  case (Suc n)
  have "unwrapPtr (Suc n) (rtypes testSys) 20 = None" by (rule unwrapPtr_loop)
  then have "visitTypeForPackages (Suc n) testSys 20 ({}, {}) = None" by simp
  then show ?thesis using Suc by (simp add: collectDependentPackages_def)
qed

end
